theory Spec2Isabelle
  imports Complex_Main "HOL-Library.Sublist"
begin

section \<open>Workspace lifecycle worker (server/workspace-service/src/service.ts)\<close>

text \<open>
  A shallow embedding of class \<open>WorkspaceWorker\<close>. Every asynchronous method becomes a
  function that returns the list of externally visible actions it performed, in order,
  together with its outcome: \<open>Returns v\<close> for a fulfilled promise, \<open>Throws err\<close> for a
  rejected one. The external collaborators (control plane, transactor, destroy adapter,
  full-text service, backup and restore pumps, create and upgrade scripts) are not
  code of this class; what each of them answers during one job is a field of the record
  \<open>env\<close>, so that every \<open>try\<close>, \<open>catch\<close>, \<open>finally\<close> and early \<open>return\<close> of the source
  is a branch of the model.

  JavaScript numbers are modelled by the rationals: every finite double is a rational and
  \<open>Math.round\<close> is exact on them. The handlers are run on finite numbers; the progress
  callback, whose test \<open>!==\<close> tells \<open>NaN\<close> apart, is also given over \<open>NaN\<close> and the
  infinities (\<open>onProgressNumber\<close>).
\<close>

subsection \<open>Data model\<close>

type_synonym number = rat

datatype 'a outcome = Returns 'a | Throws string

record BaseWorkspaceInfo =
  workspace :: string
  uuid :: "string option"
  mode :: "string option"
  progress :: "number option"
  disabled :: "bool option"

record backupOptions =
  bucketName :: string

record WorkspaceOptions =
  errorHandler :: "unit outcome"
  force :: bool
  console :: bool
  logs :: string
  ignore :: "string option"
  waitTimeout :: nat
  backup :: "backupOptions option"

text \<open>
  The constructor arguments the methods read (\<open>limit\<close>, \<open>fulltextUrl\<close>) and the two
  mutable fields. \<open>limit\<close> and \<open>runningTasks\<close> count jobs and are integers.
  \<open>resolveBusy\<close> is \<open>True\<close> when the field holds a resolver and \<open>False\<close> when it
  is \<open>null\<close>.
\<close>

record WorkspaceWorker =
  limit :: int
  fulltextUrl :: "string option"
  runningTasks :: int
  resolveBusy :: bool

text \<open>What the progress callback and the keepalive timer of a long job deliver, in order.\<close>

datatype callback = Report number | PingTick

text \<open>
  The answers of the collaborators during one job. \<open>createWorkspace\<close> and
  \<open>upgradeWorkspace\<close> carry the events the collaborator sends through the handler it is
  given; \<open>doBackupWorkspace\<close> and \<open>doRestoreWorkspace\<close> carry the schedule of progress
  callbacks and timer ticks that happen while they run. \<open>fetchReindex\<close> is \<open>res.ok\<close>.
\<close>

record env =
  MIGRATION_CLEANUP :: "string option"
  getTransactorEndpoint :: "string outcome"
  fetchManage :: "unit outcome"
  deleteWorkspace :: "unit outcome"
  fetchReindex :: "bool outcome"
  createWorkspace :: "(string \<times> number) list \<times> unit outcome"
  upgradeWorkspace :: "(string \<times> number) list \<times> unit outcome"
  updateCreateDone :: "unit outcome"
  doBackupWorkspace :: "callback list \<times> bool outcome"
  doRestoreWorkspace :: "callback list \<times> bool outcome"

text \<open>
  \<open>isArchivingMode\<close>, \<open>isMigrationMode\<close> and \<open>isRestoringMode\<close> are imported from
  \<open>@hcengineering/core\<close>, which is not part of the sources at hand: they are parameters.
\<close>

record coreModes =
  isArchivingMode :: "string option \<Rightarrow> bool"
  isMigrationMode :: "string option \<Rightarrow> bool"
  isRestoringMode :: "string option \<Rightarrow> bool"

text \<open>
  The visible actions. \<open>SendEvent\<close> is one call of the closure \<open>sendEvent\<close>
  (\<open>updateWorkspaceInfo\<close> retried until success), \<open>WsEvent\<close> one call of a closure
  \<open>handleWsEventWithRetry\<close> (\<open>updateWorkspaceInfo\<close> retried for 5000 ms); both carry
  workspace, event and progress.
\<close>

datatype action =
    SendEvent string string number
  | WsEvent string string number
  | GetTransactorEndpoint
  | ForceClose string
  | DeleteWorkspace string
  | Reindex string bool
  | CreateWorkspace string
  | UpgradeWorkspace string bool
  | DoBackupWorkspace string bool
  | DoRestoreWorkspace string
  | BuildStorage
  | CloseStorage
  | SetInterval
  | ClearInterval
  | OpenFileLogger string
  | CloseFileLogger
  | LoggerLog string
  | ErrorHandler string string
  | AnalyticsHandleError string
  | CtxInfo string
  | CtxError string
  | ConsoleLog string

type_synonym 'a io = "action list \<times> 'a outcome"

text \<open>\<open>await m\<close> followed by the rest of the body: a rejection skips the rest.\<close>

fun andThen :: "'a io \<Rightarrow> ('a \<Rightarrow> 'b io) \<Rightarrow> 'b io" where
  "andThen (tr, Returns x) f = (case f x of (tr', r) \<Rightarrow> (tr @ tr', r))"
| "andThen (tr, Throws err) f = (tr, Throws err)"

text \<open>\<open>try { m } catch (err) { h err }\<close>.\<close>

fun tryCatch :: "'a io \<Rightarrow> (string \<Rightarrow> 'a io) \<Rightarrow> 'a io" where
  "tryCatch (tr, Returns x) h = (tr, Returns x)"
| "tryCatch (tr, Throws err) h = (case h err of (tr', r) \<Rightarrow> (tr @ tr', r))"

text \<open>\<open>try { m } finally { fin }\<close> for a \<open>finally\<close> block that does not throw.\<close>

fun tryFinally :: "'a io \<Rightarrow> action list \<Rightarrow> 'a io" where
  "tryFinally (tr, r) fin = (tr @ fin, r)"

definition act :: "action list \<Rightarrow> unit io" where
  "act tr = (tr, Returns ())"

subsection \<open>Helpers of the language\<close>

text \<open>\<open>Math.round\<close>: the nearest integer, a tie going towards plus infinity.\<close>

definition Math_round :: "number \<Rightarrow> number" where
  "Math_round p = of_int \<lfloor>p + 1 / 2\<rfloor>"

text \<open>\<open>String.prototype.includes\<close>: \<open>String_includes s t\<close> is \<open>s.includes(t)\<close>.\<close>

fun String_includes :: "string \<Rightarrow> string \<Rightarrow> bool" where
  "String_includes [] t = (t = [])"
| "String_includes (c # cs) t = (prefix t (c # cs) \<or> String_includes cs t)"

text \<open>\<open>x ?? d\<close>.\<close>

fun orElse :: "'a option \<Rightarrow> 'a \<Rightarrow> 'a" where
  "orElse None d = d"
| "orElse (Some x) d = x"

subsection \<open>Closures over the workspace\<close>

text \<open>
  \<open>sendEvent\<close> of \<open>doWorkspaceOperation\<close>: wrapped in \<open>withRetryConnUntilSuccess\<close>, it
  does not reject.
\<close>

definition sendEvent :: "BaseWorkspaceInfo \<Rightarrow> string \<Rightarrow> number \<Rightarrow> unit io" where
  "sendEvent ws event p = act [SendEvent (workspace ws) event p]"

text \<open>
  The events a collaborator sends through the \<open>handleWsEventWithRetry\<close> it was given.
\<close>

definition relayed :: "BaseWorkspaceInfo \<Rightarrow> (string \<times> number) list \<Rightarrow> action list" where
  "relayed ws evs = map (\<lambda>(event, p). WsEvent (workspace ws) event p) evs"

subsection \<open>Create\<close>

text \<open>
  \<open>_createWorkspace\<close>. The logger is a file logger unless \<open>opt.console\<close>; it is closed in
  the \<open>finally\<close> block. The \<open>catch\<close> block awaits \<open>opt.errorHandler\<close>, whose rejection
  leaves the method after the \<open>finally\<close> block has run.
\<close>

definition createBody :: "env \<Rightarrow> BaseWorkspaceInfo \<Rightarrow> unit io" where
  "createBody e ws =
     andThen
       (if mode ws \<noteq> Some ''creating'' \<or> orElse (progress ws) 0 < 30
        then (CreateWorkspace (workspace ws) # relayed ws (fst (createWorkspace e)),
              snd (createWorkspace e))
        else ([WsEvent (workspace ws) ''create-done'' (orElse (progress ws) 0)],
              updateCreateDone e))
       (\<lambda>_. act [CtxInfo ''---CREATE-DONE---------''])"

definition createCatch :: "BaseWorkspaceInfo \<Rightarrow> WorkspaceOptions \<Rightarrow> string \<Rightarrow> unit io" where
  "createCatch ws opt err =
     andThen ([ErrorHandler (workspace ws) err], errorHandler opt)
       (\<lambda>_. act ([LoggerLog ''error'']
                 @ (if \<not> console opt then [CtxError ''error''] else [])
                 @ [CtxError ''---CREATE-FAILED---------'']))"

definition WorkspaceWorker_createWorkspace ::
  "env \<Rightarrow> BaseWorkspaceInfo \<Rightarrow> WorkspaceOptions \<Rightarrow> unit io" where
  "WorkspaceWorker_createWorkspace e ws opt =
     andThen
       (act ((if console opt then [] else [OpenFileLogger (workspace ws)])
             @ [CtxInfo ''---CREATING----'']))
       (\<lambda>_. tryFinally
               (tryCatch (createBody e ws) (createCatch ws opt))
               (if \<not> console opt then [CloseFileLogger] else []))"

subsection \<open>Upgrade\<close>

definition upgradeSkipped ::
  "coreModes \<Rightarrow> BaseWorkspaceInfo \<Rightarrow> WorkspaceOptions \<Rightarrow> bool" where
  "upgradeSkipped core ws opt \<longleftrightarrow>
     disabled ws = Some True \<or>
     isArchivingMode core (mode ws) \<or>
     isMigrationMode core (mode ws) \<or>
     isRestoringMode core (mode ws) \<or>
     String_includes (orElse (ignore opt) []) (workspace ws)"

definition upgradeBody :: "env \<Rightarrow> BaseWorkspaceInfo \<Rightarrow> WorkspaceOptions \<Rightarrow> unit io" where
  "upgradeBody e ws opt =
     andThen
       (UpgradeWorkspace (workspace ws) (force opt) # relayed ws (fst (upgradeWorkspace e)),
        snd (upgradeWorkspace e))
       (\<lambda>_. act [CtxInfo ''---UPGRADE-DONE---------''])"

definition upgradeCatch :: "BaseWorkspaceInfo \<Rightarrow> WorkspaceOptions \<Rightarrow> string \<Rightarrow> unit io" where
  "upgradeCatch ws opt err =
     andThen ([ErrorHandler (workspace ws) err], errorHandler opt)
       (\<lambda>_. act ([LoggerLog ''error'']
                 @ (if \<not> console opt then [CtxError ''error''] else [])
                 @ [CtxError ''---UPGRADE-FAILED---------'']))"

definition WorkspaceWorker_upgradeWorkspace ::
  "coreModes \<Rightarrow> env \<Rightarrow> BaseWorkspaceInfo \<Rightarrow> WorkspaceOptions \<Rightarrow> unit io" where
  "WorkspaceWorker_upgradeWorkspace core e ws opt =
     (if upgradeSkipped core ws opt then ([], Returns ())
      else
        andThen
          (act ((if console opt then [] else [OpenFileLogger (workspace ws)])
                @ [CtxInfo ''---UPGRADING----'']))
          (\<lambda>_. tryFinally
                  (tryCatch (upgradeBody e ws opt) (upgradeCatch ws opt))
                  (if \<not> console opt then [CloseFileLogger] else [])))"

subsection \<open>Cleanup, reindex and transactor maintenance\<close>

text \<open>
  \<open>doReindexFulltext\<close>: nothing without a \<open>fulltextUrl\<close>; otherwise one \<open>PUT\<close> carrying
  \<open>onlyDrop\<close>. A response that is not ok is thrown and, like a failed fetch, caught and
  logged inside the method.
\<close>

definition doReindexFulltext ::
  "WorkspaceWorker \<Rightarrow> env \<Rightarrow> BaseWorkspaceInfo \<Rightarrow> bool \<Rightarrow> unit io" where
  "doReindexFulltext w e ws clearIndexes =
     (case fulltextUrl w of
        None \<Rightarrow> ([], Returns ())
      | Some url \<Rightarrow>
          tryCatch
            (andThen ([Reindex (workspace ws) clearIndexes], fetchReindex e)
               (\<lambda>ok. if \<not> ok then ([], Throws ''HTTP Error'') else ([], Returns ())))
            (\<lambda>err. act [CtxError ''failed to reset index'']))"

definition doCleanup ::
  "WorkspaceWorker \<Rightarrow> env \<Rightarrow> BaseWorkspaceInfo \<Rightarrow> bool \<Rightarrow> unit io" where
  "doCleanup w e ws cleanIndexes =
     andThen ([DeleteWorkspace (workspace ws)], deleteWorkspace e)
       (\<lambda>_. doReindexFulltext w e ws cleanIndexes)"

text \<open>
  \<open>sendTransactorMaitenance\<close>: the endpoint is fetched, its scheme rewritten (a string
  operation left out here) and the force-close request sent; every error is caught and
  printed.
\<close>

definition sendTransactorMaitenance :: "env \<Rightarrow> string \<Rightarrow> unit io" where
  "sendTransactorMaitenance e name =
     tryCatch
       (andThen ([GetTransactorEndpoint], getTransactorEndpoint e)
          (\<lambda>serverEndpoint.
             andThen (act [ConsoleLog ''sending event''])
               (\<lambda>_. ([ForceClose name], fetchManage e))))
       (\<lambda>err. act [ConsoleLog err])"

subsection \<open>Backup and restore\<close>

text \<open>
  The progress callback handed to \<open>doBackupWorkspace\<close> and \<open>doRestoreWorkspace\<close>, over
  the local variable \<open>progress\<close>: the new value of the variable and what is sent.
\<close>

definition onProgress :: "BaseWorkspaceInfo \<Rightarrow> number \<Rightarrow> number \<Rightarrow> number \<times> action list" where
  "onProgress ws progress_var p =
     (if progress_var \<noteq> Math_round p
      then (Math_round p, [WsEvent (workspace ws) ''progress'' (Math_round p)])
      else (progress_var, []))"

text \<open>The timer callback of \<open>setInterval\<close>: a ping with the current value of the variable.\<close>

definition onPing :: "BaseWorkspaceInfo \<Rightarrow> number \<Rightarrow> number \<times> action list" where
  "onPing ws progress_var = (progress_var, [WsEvent (workspace ws) ''ping'' progress_var])"

fun runCallbacks :: "BaseWorkspaceInfo \<Rightarrow> number \<Rightarrow> callback list \<Rightarrow> number \<times> action list" where
  "runCallbacks ws progress_var [] = (progress_var, [])"
| "runCallbacks ws progress_var (Report p # cbs) =
     (case onProgress ws progress_var p of
        (v, tr) \<Rightarrow> (case runCallbacks ws v cbs of (v', tr') \<Rightarrow> (v', tr @ tr')))"
| "runCallbacks ws progress_var (PingTick # cbs) =
     (case onPing ws progress_var of
        (v, tr) \<Rightarrow> (case runCallbacks ws v cbs of (v', tr') \<Rightarrow> (v', tr @ tr')))"

definition doBackup ::
  "env \<Rightarrow> BaseWorkspaceInfo \<Rightarrow> WorkspaceOptions \<Rightarrow> bool \<Rightarrow> bool io" where
  "doBackup e ws opt doFullCheck =
     (case backup opt of
        None \<Rightarrow> ([], Returns False)
      | Some b \<Rightarrow>
          andThen (act [BuildStorage, SetInterval])
            (\<lambda>_. tryFinally
                    (andThen
                       (DoBackupWorkspace (workspace ws) doFullCheck
                          # snd (runCallbacks ws 0 (fst (doBackupWorkspace e))),
                        snd (doBackupWorkspace e))
                       (\<lambda>result. if result then ([CtxInfo ''backup completed''], Returns True)
                                  else ([], Returns False)))
                    [ClearInterval, CloseStorage]))"

definition doRestore ::
  "env \<Rightarrow> BaseWorkspaceInfo \<Rightarrow> WorkspaceOptions \<Rightarrow> bool io" where
  "doRestore e ws opt =
     (case backup opt of
        None \<Rightarrow> ([], Returns False)
      | Some b \<Rightarrow>
          andThen (act [BuildStorage, SetInterval])
            (\<lambda>_. tryFinally
                    (andThen
                       (DoRestoreWorkspace (workspace ws)
                          # snd (runCallbacks ws 0 (fst (doRestoreWorkspace e))),
                        snd (doRestoreWorkspace e))
                       (\<lambda>result. if result then ([CtxInfo ''restore completed''], Returns True)
                                  else ([], Returns False)))
                    [ClearInterval, CloseStorage]))"

text \<open>
  The callback once more, over every value a JavaScript number can take: a finite
  number, an infinity, or \<open>NaN\<close> (negative zero is identified with zero, as \<open>!==\<close>
  does). \<open>Math.round\<close> returns the infinities and \<open>NaN\<close> as they are, and \<open>a !== b\<close>
  holds whenever one side is \<open>NaN\<close>. \<open>onProgressNumber\<close> gives the new value of the
  variable \<open>progress\<close> and the progress values sent; \<open>runReports\<close> runs it over a
  sequence of reports. On finite values it is \<open>onProgress\<close>.
\<close>

datatype jsnumber = Num number | PosInfinity | NegInfinity | NaN

fun Math_round_js :: "jsnumber \<Rightarrow> jsnumber" where
  "Math_round_js (Num p) = Num (Math_round p)"
| "Math_round_js PosInfinity = PosInfinity"
| "Math_round_js NegInfinity = NegInfinity"
| "Math_round_js NaN = NaN"

definition strictNotEqual :: "jsnumber \<Rightarrow> jsnumber \<Rightarrow> bool" where
  "strictNotEqual a b \<longleftrightarrow> a = NaN \<or> b = NaN \<or> a \<noteq> b"

definition onProgressNumber :: "jsnumber \<Rightarrow> jsnumber \<Rightarrow> jsnumber \<times> jsnumber list" where
  "onProgressNumber progress_var p =
     (if strictNotEqual progress_var (Math_round_js p)
      then (Math_round_js p, [Math_round_js p])
      else (progress_var, []))"

fun runReports :: "jsnumber \<Rightarrow> jsnumber list \<Rightarrow> jsnumber \<times> jsnumber list" where
  "runReports progress_var [] = (progress_var, [])"
| "runReports progress_var (p # ps) =
     (case onProgressNumber progress_var p of
        (v, sent) \<Rightarrow> (case runReports v ps of (v', sent') \<Rightarrow> (v', sent @ sent')))"

subsection \<open>The dispatcher\<close>

text \<open>
  \<open>try { m } catch (err) { Analytics.handleError(err); return }\<close> followed by \<open>rest\<close>:
  the \<open>return\<close> in the \<open>catch\<close> block leaves \<open>doWorkspaceOperation\<close> normally.
\<close>

fun tryOrReturn :: "unit io \<Rightarrow> unit io \<Rightarrow> unit io" where
  "tryOrReturn (tr, Throws err) rest = (tr @ [AnalyticsHandleError err], Returns ())"
| "tryOrReturn (tr, Returns u) rest = andThen (tr, Returns u) (\<lambda>_. rest)"

definition doWorkspaceOperation ::
  "coreModes \<Rightarrow> WorkspaceWorker \<Rightarrow> env \<Rightarrow> BaseWorkspaceInfo \<Rightarrow> WorkspaceOptions \<Rightarrow> unit io" where
  "doWorkspaceOperation core w e ws opt =
     (let m = orElse (mode ws) ''active'' in
      if m = ''pending-creation'' \<or> m = ''creating'' then
        WorkspaceWorker_createWorkspace e ws opt
      else if m = ''upgrading'' \<or> m = ''active'' then
        WorkspaceWorker_upgradeWorkspace core e ws opt
      else if m = ''archiving-pending-backup'' \<or> m = ''archiving-backup'' then
        andThen (sendEvent ws ''archiving-backup-started'' 0)
          (\<lambda>_. andThen (sendTransactorMaitenance e (workspace ws))
            (\<lambda>_. andThen (doBackup e ws opt True)
              (\<lambda>ok. if ok then sendEvent ws ''archiving-backup-done'' 100
                     else ([], Returns ()))))
      else if m = ''archiving-pending-clean'' \<or> m = ''archiving-clean'' then
        andThen (sendEvent ws ''archiving-clean-started'' 0)
          (\<lambda>_. tryOrReturn (doCleanup w e ws False)
                  (sendEvent ws ''archiving-clean-done'' 100))
      else if m = ''pending-deletion'' \<or> m = ''deleting'' then
        andThen (sendEvent ws ''delete-started'' 0)
          (\<lambda>_. andThen (sendTransactorMaitenance e (workspace ws))
            (\<lambda>_. tryOrReturn (doCleanup w e ws True)
                    (sendEvent ws ''delete-done'' 100)))
      else if m = ''migration-pending-backup'' \<or> m = ''migration-backup'' then
        andThen (sendEvent ws ''migrate-backup-started'' 0)
          (\<lambda>_. andThen (sendTransactorMaitenance e (workspace ws))
            (\<lambda>_. andThen (doBackup e ws opt False)
              (\<lambda>ok. if ok then sendEvent ws ''migrate-backup-done'' 100
                     else ([], Returns ()))))
      else if m = ''migration-pending-clean'' \<or> m = ''migration-clean'' then
        andThen (sendEvent ws ''migrate-clean-started'' 0)
          (\<lambda>_. andThen (sendTransactorMaitenance e (workspace ws))
            (\<lambda>_. tryOrReturn
                    (if MIGRATION_CLEANUP e = Some ''true'' then doCleanup w e ws False
                     else ([], Returns ()))
                    (sendEvent ws ''migrate-clean-done'' 0)))
      else if m = ''pending-restore'' \<or> m = ''restoring'' then
        andThen (sendEvent ws ''restore-started'' 0)
          (\<lambda>_. andThen (doRestore e ws opt)
            (\<lambda>ok. if ok then
                     andThen (doReindexFulltext w e ws False)
                       (\<lambda>_. sendEvent ws ''restore-done'' 100)
                   else ([], Returns ())))
      else act [CtxError ''Unknown workspace mode''])"

text \<open>
  The operation passed to \<open>exec\<close> by \<open>start\<close>: \<open>doWorkspaceOperation\<close> with a \<open>catch\<close>
  attached that hands the error to analytics and logs it.
\<close>

definition dispatched ::
  "coreModes \<Rightarrow> WorkspaceWorker \<Rightarrow> env \<Rightarrow> BaseWorkspaceInfo \<Rightarrow> WorkspaceOptions \<Rightarrow> unit io" where
  "dispatched core w e ws opt =
     tryCatch (doWorkspaceOperation core w e ws opt)
       (\<lambda>err. act [AnalyticsHandleError err, CtxError ''error''])"

subsection \<open>The concurrency gate\<close>

definition hasAvailableThread :: "WorkspaceWorker \<Rightarrow> bool" where
  "hasAvailableThread w \<longleftrightarrow> runningTasks w < limit w"

text \<open>Where the loop of \<open>start\<close> stands between two of its suspension points.\<close>

datatype position = LoopHead | Blocked | Polling | Sleeping | Exited

text \<open>
  \<open>waitForAvailableThread\<close>: with a free slot it returns and the loop goes on to poll;
  otherwise it stores the resolver of a new promise in \<open>resolveBusy\<close> and the loop is
  blocked on that promise.
\<close>

definition waitForAvailableThread :: "WorkspaceWorker \<Rightarrow> WorkspaceWorker \<times> position" where
  "waitForAvailableThread w =
     (if hasAvailableThread w then (w, Polling)
      else (w\<lparr>resolveBusy := True\<rparr>, Blocked))"

text \<open>
  \<open>exec\<close> in two halves: the increment before the operation starts, and the callback of
  \<open>finally\<close>, which runs however the operation settles. The second component says
  whether the resolver was called.
\<close>

definition exec_enter :: "WorkspaceWorker \<Rightarrow> WorkspaceWorker" where
  "exec_enter w = w\<lparr>runningTasks := runningTasks w + 1\<rparr>"

definition exec_finally :: "WorkspaceWorker \<Rightarrow> WorkspaceWorker \<times> bool" where
  "exec_finally w =
     (let w' = w\<lparr>runningTasks := runningTasks w - 1\<rparr>
      in if resolveBusy w' then (w'\<lparr>resolveBusy := False\<rparr>, True) else (w', False))"

subsection \<open>The polling loop\<close>

text \<open>
  The \<open>try\<close>/\<open>catch\<close> around \<open>getPendingWorkspace\<close>: an error is logged and the
  callback returns \<open>undefined\<close>.
\<close>

definition getPendingGuarded ::
  "BaseWorkspaceInfo option outcome \<Rightarrow> action list \<times> BaseWorkspaceInfo option" where
  "getPendingGuarded r =
     (case r of
        Returns found \<Rightarrow> ([], found)
      | Throws err \<Rightarrow> ([CtxError ''Error getting pending workspace:''], None))"

text \<open>
  The state of a running worker: the object, the position of the loop, the workspaces
  whose operation was started by \<open>exec\<close> and has not settled, and the actions so far.
\<close>

record loopState =
  worker :: WorkspaceWorker
  position :: position
  inflight :: "BaseWorkspaceInfo list"
  performed :: "action list"

text \<open>
  What can happen next, as the JavaScript event loop sees it: the loop evaluates
  \<open>isCanceled()\<close> at its head and, if it goes on, \<open>waitForAvailableThread\<close>;
  \<open>getPendingWorkspace\<close> settles; the sleep ends (by the timer or by \<open>wakeup\<close>); the
  operation of the in-flight job number \<open>i\<close> settles, the collaborators having answered
  as \<open>env\<close> says. The actions of a job are appended when it settles.
\<close>

datatype event =
    IsCanceled bool
  | GetPendingWorkspace "BaseWorkspaceInfo option outcome"
  | SleepOver
  | JobSettles nat env

fun step :: "coreModes \<Rightarrow> WorkspaceOptions \<Rightarrow> event \<Rightarrow> loopState \<Rightarrow> loopState option" where
  "step core opt (IsCanceled c) s =
     (if position s \<noteq> LoopHead then None
      else if c then Some (s\<lparr>position := Exited\<rparr>)
      else (case waitForAvailableThread (worker s) of
              (w, p) \<Rightarrow> Some (s\<lparr>worker := w, position := p\<rparr>)))"
| "step core opt (GetPendingWorkspace r) s =
     (if position s \<noteq> Polling then None
      else (case getPendingGuarded r of
              (tr, None) \<Rightarrow> Some (s\<lparr>position := Sleeping, performed := performed s @ tr\<rparr>)
            | (tr, Some ws) \<Rightarrow>
                Some (s\<lparr>worker := exec_enter (worker s), position := LoopHead,
                        inflight := inflight s @ [ws], performed := performed s @ tr\<rparr>)))"
| "step core opt SleepOver s =
     (if position s \<noteq> Sleeping then None else Some (s\<lparr>position := LoopHead\<rparr>))"
| "step core opt (JobSettles i e) s =
     (if \<not> i < length (inflight s) then None
      else (case dispatched core (worker s) e (inflight s ! i) opt of
              (tr, r) \<Rightarrow>
                (case exec_finally (worker s) of
                   (w, resolved) \<Rightarrow>
                     Some (s\<lparr>worker := w,
                             position := (if resolved \<and> position s = Blocked then Polling
                                          else position s),
                             inflight := take i (inflight s) @ drop (Suc i) (inflight s),
                             performed := performed s @ tr\<rparr>))))"

fun run :: "coreModes \<Rightarrow> WorkspaceOptions \<Rightarrow> event list \<Rightarrow> loopState \<Rightarrow> loopState option" where
  "run core opt [] s = Some s"
| "run core opt (ev # evs) s =
     (case step core opt ev s of None \<Rightarrow> None | Some s' \<Rightarrow> run core opt evs s')"

text \<open>A fresh worker entering the polling loop of \<open>start\<close>.\<close>

definition started :: "int \<Rightarrow> string option \<Rightarrow> loopState" where
  "started maxTasks url =
     \<lparr>worker = \<lparr>limit = maxTasks, fulltextUrl = url, runningTasks = 0, resolveBusy = False\<rparr>,
      position = LoopHead, inflight = [], performed = []\<rparr>"

subsection \<open>Observations on a list of actions\<close>

text \<open>The progress values sent to the control plane, in order.\<close>

fun progressValues :: "action list \<Rightarrow> number list" where
  "progressValues [] = []"
| "progressValues (SendEvent n ev p # tr) = p # progressValues tr"
| "progressValues (WsEvent n ev p # tr) = p # progressValues tr"
| "progressValues (a # tr) = progressValues tr"

text \<open>The events sent to the control plane, with their progress, in order.\<close>

fun events :: "action list \<Rightarrow> (string \<times> number) list" where
  "events [] = []"
| "events (SendEvent n ev p # tr) = (ev, p) # events tr"
| "events (WsEvent n ev p # tr) = (ev, p) # events tr"
| "events (a # tr) = events tr"

text \<open>The calls of the progress callback that reached the network.\<close>

fun progressCalls :: "action list \<Rightarrow> number list" where
  "progressCalls [] = []"
| "progressCalls (WsEvent n ev p # tr) =
     (if ev = ''progress'' then p # progressCalls tr else progressCalls tr)"
| "progressCalls (a # tr) = progressCalls tr"

text \<open>The raw values of a schedule of callbacks.\<close>

fun reports :: "callback list \<Rightarrow> number list" where
  "reports [] = []"
| "reports (Report p # cbs) = p # reports cbs"
| "reports (PingTick # cbs) = reports cbs"

text \<open>
  Is the first of \<open>GetTransactorEndpoint\<close> (the first thing \<open>sendTransactorMaitenance\<close>
  does) and \<open>DeleteWorkspace\<close> in a list of actions not the delete?
\<close>

fun maintenanceBeforeDelete :: "action list \<Rightarrow> bool" where
  "maintenanceBeforeDelete [] = True"
| "maintenanceBeforeDelete (GetTransactorEndpoint # tr) = True"
| "maintenanceBeforeDelete (DeleteWorkspace n # tr) = False"
| "maintenanceBeforeDelete (a # tr) = maintenanceBeforeDelete tr"

subsection \<open>The \<open>ignore\<close> option read as a list\<close>

text \<open>
  The specification calls \<open>ignore\<close> a comma-separated option. \<open>splitOn\<close> cuts a string
  at a separator, and \<open>listedIn name ign\<close> says that \<open>name\<close> is one of the entries of
  \<open>ign\<close>. These two follow the words of the specification, not the source, which tests
  \<open>includes\<close>; they are here to be compared with it.
\<close>

fun splitOn :: "char \<Rightarrow> string \<Rightarrow> string list" where
  "splitOn d [] = [[]]"
| "splitOn d (c # cs) =
     (if c = d then [] # splitOn d cs
      else (case splitOn d cs of [] \<Rightarrow> [[c]] | x # xs \<Rightarrow> (c # x) # xs))"

definition listedIn :: "string \<Rightarrow> string \<Rightarrow> bool" where
  "listedIn name ign \<longleftrightarrow> name \<in> set (splitOn CHR '','' ign)"

subsection \<open>Sample inputs\<close>

text \<open>
  Modelled from the spec: the three mode predicates of \<open>@hcengineering/core\<close>, which the
  sources at hand import but do not contain. The specification gives them as the modes
  \<open>archiving-*\<close>, \<open>migration-*\<close> and \<open>restoring*\<close>. They are used only to run the model
  on concrete inputs.
\<close>

definition specModes :: coreModes where
  "specModes =
     \<lparr>isArchivingMode = (\<lambda>m. prefix ''archiving-'' (orElse m [])),
      isMigrationMode = (\<lambda>m. prefix ''migration-'' (orElse m [])),
      isRestoringMode = (\<lambda>m. prefix ''restoring'' (orElse m []))\<rparr>"

text \<open>Collaborators that all succeed; a backup that reports 0.2, 0.3 and 99.5 percent.\<close>

definition calm :: env where
  "calm =
     \<lparr>MIGRATION_CLEANUP = None,
      getTransactorEndpoint = Returns ''ws://transactor:3334'',
      fetchManage = Returns (),
      deleteWorkspace = Returns (),
      fetchReindex = Returns True,
      createWorkspace =
        ([(''create-started'', 0), (''progress'', 30), (''create-done'', 100)], Returns ()),
      upgradeWorkspace = ([(''upgrade-started'', 0), (''upgrade-done'', 100)], Returns ()),
      updateCreateDone = Returns (),
      doBackupWorkspace =
        ([Report (1 / 5), PingTick, Report (3 / 10), Report (199 / 2)], Returns True),
      doRestoreWorkspace = ([Report 50, Report 20], Returns True)\<rparr>"

definition plainOptions :: WorkspaceOptions where
  "plainOptions =
     \<lparr>errorHandler = Returns (), force = False, console = True, logs = ''logs'',
      ignore = None, waitTimeout = 5000, backup = Some \<lparr>bucketName = ''backups''\<rparr>\<rparr>"

definition sampleWorker :: WorkspaceWorker where
  "sampleWorker =
     \<lparr>limit = 2, fulltextUrl = Some ''http://fulltext:4710'',
      runningTasks = 0, resolveBusy = False\<rparr>"

definition inMode :: "string \<Rightarrow> string \<Rightarrow> BaseWorkspaceInfo" where
  "inMode name m =
     \<lparr>workspace = name, uuid = None, mode = Some m, progress = None, disabled = None\<rparr>"

text \<open>
  What holds between any two steps of a running worker: the counter counts the jobs in
  flight, it does not exceed the limit, a loop about to poll has a free slot, and a
  resolver is stored exactly while the loop is blocked.
\<close>

definition gateInvariant :: "loopState \<Rightarrow> bool" where
  "gateInvariant s \<longleftrightarrow>
     runningTasks (worker s) = int (length (inflight s))
     \<and> runningTasks (worker s) \<le> limit (worker s)
     \<and> (position s = Polling \<longrightarrow> runningTasks (worker s) < limit (worker s))
     \<and> (resolveBusy (worker s) \<longleftrightarrow> position s = Blocked)"

text \<open>A backup pump that reports 10 percent and then throws.\<close>

definition diskFull :: env where
  "diskFull = calm\<lparr>doBackupWorkspace := ([Report 10], Throws ''disk full'')\<rparr>"

text \<open>
  A worker of limit 1 takes a job, comes back to the head of the loop, finds no free
  slot and blocks.
\<close>

definition saturated :: "event list" where
  "saturated =
     [IsCanceled False,
      GetPendingWorkspace (Returns (Some (inMode ''w4'' ''archiving-backup''))),
      IsCanceled False]"

text \<open>
  A poll that throws, a sleep, a job whose handler throws, and then the cancellation.
\<close>

definition stormy :: "event list" where
  "stormy =
     [IsCanceled False,
      GetPendingWorkspace (Throws ''connection refused''),
      SleepOver,
      IsCanceled False,
      GetPendingWorkspace (Returns (Some (inMode ''w4'' ''archiving-backup''))),
      JobSettles 0 diskFull,
      IsCanceled True]"

section \<open>Properties\<close>

subsection \<open>Sequencing\<close>

lemma andThen_unfold:
  "andThen m f =
     (case snd m of
        Returns x \<Rightarrow> (fst m @ fst (f x), snd (f x))
      | Throws err \<Rightarrow> (fst m, Throws err))"
  by (cases m; cases "snd m") (auto split: prod.splits)

lemma tryCatch_unfold:
  "tryCatch m h =
     (case snd m of
        Returns x \<Rightarrow> m
      | Throws err \<Rightarrow> (fst m @ fst (h err), snd (h err)))"
  by (cases m; cases "snd m") (auto split: prod.splits)

lemma tryFinally_unfold: "tryFinally m fin = (fst m @ fin, snd m)"
  by (cases m) simp

lemma tryOrReturn_unfold:
  "tryOrReturn m rest =
     (case snd m of
        Returns u \<Rightarrow> (fst m @ fst rest, snd rest)
      | Throws err \<Rightarrow> (fst m @ [AnalyticsHandleError err], Returns ()))"
  by (cases m; cases "snd m"; cases rest) (auto split: prod.splits)

lemmas io_unfold =
  andThen_unfold tryCatch_unfold tryFinally_unfold tryOrReturn_unfold act_def

lemma events_append: "events (xs @ ys) = events xs @ events ys"
  by (induction xs rule: events.induct) auto

lemma events_relayed: "events (relayed ws evs) = evs"
  by (induction evs) (auto simp: relayed_def)

lemma maintenanceBeforeDelete_append:
  "maintenanceBeforeDelete (xs @ ys) =
     (if GetTransactorEndpoint \<in> set xs then maintenanceBeforeDelete xs
      else maintenanceBeforeDelete xs \<and> maintenanceBeforeDelete ys)"
  by (induction xs rule: maintenanceBeforeDelete.induct) auto

subsection \<open>The small methods\<close>

lemma sendTransactorMaitenance_snd: "snd (sendTransactorMaitenance e n) = Returns ()"
  by (simp add: sendTransactorMaitenance_def io_unfold split: outcome.splits)

lemma sendTransactorMaitenance_events: "events (fst (sendTransactorMaitenance e n)) = []"
  by (simp add: sendTransactorMaitenance_def io_unfold split: outcome.splits)

lemma sendTransactorMaitenance_actions:
  "a \<in> set (fst (sendTransactorMaitenance e n)) \<Longrightarrow>
     a = GetTransactorEndpoint \<or> (\<exists>s. a = ConsoleLog s) \<or> a = ForceClose n"
  by (auto simp: sendTransactorMaitenance_def io_unfold split: outcome.splits)

lemma sendTransactorMaitenance_first:
  "\<exists>tr. fst (sendTransactorMaitenance e n) = GetTransactorEndpoint # tr"
  by (simp add: sendTransactorMaitenance_def io_unfold split: outcome.splits)

lemma doReindexFulltext_snd: "snd (doReindexFulltext w e ws b) = Returns ()"
  by (simp add: doReindexFulltext_def io_unfold split: outcome.splits option.splits)

lemma doReindexFulltext_events: "events (fst (doReindexFulltext w e ws b)) = []"
  by (simp add: doReindexFulltext_def io_unfold split: outcome.splits option.splits)


lemma doReindexFulltext_configured:
  "fulltextUrl w = Some url \<Longrightarrow>
     fst (doReindexFulltext w e ws b) =
       Reindex (workspace ws) b #
         (if fetchReindex e = Returns True then [] else [CtxError ''failed to reset index''])"
  by (auto simp: doReindexFulltext_def io_unfold split: outcome.splits)

lemma doReindexFulltext_absent:
  "fulltextUrl w = None \<Longrightarrow> fst (doReindexFulltext w e ws b) = []"
  by (simp add: doReindexFulltext_def)

subsection \<open>The branches of the dispatcher\<close>

lemma in_create:
  "orElse (mode ws) ''active'' = ''pending-creation'' \<or>
   orElse (mode ws) ''active'' = ''creating'' \<Longrightarrow>
   doWorkspaceOperation core w e ws opt = WorkspaceWorker_createWorkspace e ws opt"
  by (auto simp: doWorkspaceOperation_def Let_def)

lemma in_upgrade:
  "orElse (mode ws) ''active'' = ''upgrading'' \<or>
   orElse (mode ws) ''active'' = ''active'' \<Longrightarrow>
   doWorkspaceOperation core w e ws opt = WorkspaceWorker_upgradeWorkspace core e ws opt"
  by (auto simp: doWorkspaceOperation_def Let_def)

lemma in_archiving_backup:
  "orElse (mode ws) ''active'' = ''archiving-pending-backup'' \<or>
   orElse (mode ws) ''active'' = ''archiving-backup'' \<Longrightarrow>
   doWorkspaceOperation core w e ws opt =
     andThen (sendEvent ws ''archiving-backup-started'' 0)
       (\<lambda>_. andThen (sendTransactorMaitenance e (workspace ws))
         (\<lambda>_. andThen (doBackup e ws opt True)
           (\<lambda>ok. if ok then sendEvent ws ''archiving-backup-done'' 100
                  else ([], Returns ()))))"
  by (auto simp: doWorkspaceOperation_def Let_def)

lemma in_archiving_clean:
  "orElse (mode ws) ''active'' = ''archiving-pending-clean'' \<or>
   orElse (mode ws) ''active'' = ''archiving-clean'' \<Longrightarrow>
   doWorkspaceOperation core w e ws opt =
     andThen (sendEvent ws ''archiving-clean-started'' 0)
       (\<lambda>_. tryOrReturn (doCleanup w e ws False)
               (sendEvent ws ''archiving-clean-done'' 100))"
  by (auto simp: doWorkspaceOperation_def Let_def)

lemma in_delete:
  "orElse (mode ws) ''active'' = ''pending-deletion'' \<or>
   orElse (mode ws) ''active'' = ''deleting'' \<Longrightarrow>
   doWorkspaceOperation core w e ws opt =
     andThen (sendEvent ws ''delete-started'' 0)
       (\<lambda>_. andThen (sendTransactorMaitenance e (workspace ws))
         (\<lambda>_. tryOrReturn (doCleanup w e ws True)
                 (sendEvent ws ''delete-done'' 100)))"
  by (auto simp: doWorkspaceOperation_def Let_def)

lemma in_migration_backup:
  "orElse (mode ws) ''active'' = ''migration-pending-backup'' \<or>
   orElse (mode ws) ''active'' = ''migration-backup'' \<Longrightarrow>
   doWorkspaceOperation core w e ws opt =
     andThen (sendEvent ws ''migrate-backup-started'' 0)
       (\<lambda>_. andThen (sendTransactorMaitenance e (workspace ws))
         (\<lambda>_. andThen (doBackup e ws opt False)
           (\<lambda>ok. if ok then sendEvent ws ''migrate-backup-done'' 100
                  else ([], Returns ()))))"
  by (auto simp: doWorkspaceOperation_def Let_def)

lemma in_migration_clean:
  "orElse (mode ws) ''active'' = ''migration-pending-clean'' \<or>
   orElse (mode ws) ''active'' = ''migration-clean'' \<Longrightarrow>
   doWorkspaceOperation core w e ws opt =
     andThen (sendEvent ws ''migrate-clean-started'' 0)
       (\<lambda>_. andThen (sendTransactorMaitenance e (workspace ws))
         (\<lambda>_. tryOrReturn
                 (if MIGRATION_CLEANUP e = Some ''true'' then doCleanup w e ws False
                  else ([], Returns ()))
                 (sendEvent ws ''migrate-clean-done'' 0)))"
  by (auto simp: doWorkspaceOperation_def Let_def)

lemma in_restore:
  "orElse (mode ws) ''active'' = ''pending-restore'' \<or>
   orElse (mode ws) ''active'' = ''restoring'' \<Longrightarrow>
   doWorkspaceOperation core w e ws opt =
     andThen (sendEvent ws ''restore-started'' 0)
       (\<lambda>_. andThen (doRestore e ws opt)
         (\<lambda>ok. if ok then
                  andThen (doReindexFulltext w e ws False)
                    (\<lambda>_. sendEvent ws ''restore-done'' 100)
                else ([], Returns ())))"
  by (auto simp: doWorkspaceOperation_def Let_def)

subsection \<open>Destructive phases and transactor maintenance\<close>

text \<open>
  The Delete and MigrateClean branches call \<open>sendTransactorMaitenance\<close> before anything
  is deleted, whatever the collaborators answer.
\<close>

lemma delete_maintenance_first:
  assumes "orElse (mode ws) ''active'' = ''pending-deletion'' \<or>
           orElse (mode ws) ''active'' = ''deleting''"
  shows "maintenanceBeforeDelete (fst (doWorkspaceOperation core w e ws opt))"
proof -
  obtain tr where "fst (sendTransactorMaitenance e (workspace ws)) = GetTransactorEndpoint # tr"
    using sendTransactorMaitenance_first by blast
  then show ?thesis
    by (simp add: in_delete[OF assms] sendEvent_def io_unfold sendTransactorMaitenance_snd)
qed

lemma migration_clean_maintenance_first:
  assumes "orElse (mode ws) ''active'' = ''migration-pending-clean'' \<or>
           orElse (mode ws) ''active'' = ''migration-clean''"
  shows "maintenanceBeforeDelete (fst (doWorkspaceOperation core w e ws opt))"
proof -
  obtain tr where "fst (sendTransactorMaitenance e (workspace ws)) = GetTransactorEndpoint # tr"
    using sendTransactorMaitenance_first by blast
  then show ?thesis
    by (simp add: in_migration_clean[OF assms] sendEvent_def io_unfold
        sendTransactorMaitenance_snd)
qed

text \<open>
  Claim C1. Every destructive phase calls the transactor maintenance (force-close) before
  the destructive delete. The two lemmas above show it for Delete and MigrateClean. The
  ArchiveClean branch does not: for a workspace \<open>w4\<close> in mode \<open>archiving-clean\<close>, with
  every collaborator succeeding, the worker sends \<open>archiving-clean-started\<close> and goes
  straight to \<open>deleteWorkspace\<close>; the transactor is never contacted.
\<close>

theorem archiving_clean_deletes_without_maintenance:
  "fst (doWorkspaceOperation specModes sampleWorker calm (inMode ''w4'' ''archiving-clean'')
          plainOptions) =
     [SendEvent ''w4'' ''archiving-clean-started'' 0, DeleteWorkspace ''w4'',
      Reindex ''w4'' False, SendEvent ''w4'' ''archiving-clean-done'' 100]
   \<and> \<not> maintenanceBeforeDelete
         (fst (doWorkspaceOperation specModes sampleWorker calm
                 (inMode ''w4'' ''archiving-clean'') plainOptions))"
  by code_simp

subsection \<open>Create\<close>

text \<open>
  Claim C2. In the Create phase (modes \<open>pending-creation\<close> and \<open>creating\<close>): if the mode is
  not \<open>creating\<close> or the progress, 0 when absent, is below 30, the external
  \<open>createWorkspace\<close> is run; otherwise it is not invoked and the only event sent is one
  \<open>create-done\<close> carrying the observed progress.
\<close>

theorem create_runs_or_resumes:
  assumes "orElse (mode ws) ''active'' = ''pending-creation'' \<or>
           orElse (mode ws) ''active'' = ''creating''"
  shows "(mode ws \<noteq> Some ''creating'' \<or> orElse (progress ws) 0 < 30 \<longrightarrow>
            CreateWorkspace (workspace ws) \<in> set (fst (doWorkspaceOperation core w e ws opt)))
       \<and> (\<not> (mode ws \<noteq> Some ''creating'' \<or> orElse (progress ws) 0 < 30) \<longrightarrow>
            (\<forall>n. CreateWorkspace n \<notin> set (fst (doWorkspaceOperation core w e ws opt)))
            \<and> events (fst (doWorkspaceOperation core w e ws opt)) =
                [(''create-done'', orElse (progress ws) 0)])"
  by (auto simp: in_create[OF assms] WorkspaceWorker_createWorkspace_def createBody_def
      createCatch_def io_unfold events_append split: outcome.splits)

theorem create_runs_or_resumes_witness:
  "orElse (mode ((inMode ''w2'' ''creating'')\<lparr>progress := Some 42\<rparr>)) ''active'' = ''creating''
   \<and> \<not> (mode ((inMode ''w2'' ''creating'')\<lparr>progress := Some 42\<rparr>) \<noteq> Some ''creating''
         \<or> orElse (progress ((inMode ''w2'' ''creating'')\<lparr>progress := Some 42\<rparr>)) 0 < 30)
   \<and> events (fst (doWorkspaceOperation specModes sampleWorker calm
                    ((inMode ''w2'' ''creating'')\<lparr>progress := Some 42\<rparr>) plainOptions)) =
       [(''create-done'', 42)]
   \<and> CreateWorkspace ''w1''
       \<in> set (fst (doWorkspaceOperation specModes sampleWorker calm
                     (inMode ''w1'' ''pending-creation'') plainOptions))"
proof -
  let ?w2 = "(inMode ''w2'' ''creating'')\<lparr>progress := Some 42\<rparr>"
  let ?w1 = "inMode ''w1'' ''pending-creation''"
  have m2: "orElse (mode ?w2) ''active'' = ''pending-creation'' \<or>
            orElse (mode ?w2) ''active'' = ''creating''"
    by (simp add: inMode_def)
  have m1: "orElse (mode ?w1) ''active'' = ''pending-creation'' \<or>
            orElse (mode ?w1) ''active'' = ''creating''"
    by (simp add: inMode_def)
  have late: "\<not> (mode ?w2 \<noteq> Some ''creating'' \<or> orElse (progress ?w2) 0 < 30)"
    by (simp add: inMode_def)
  have fresh: "mode ?w1 \<noteq> Some ''creating'' \<or> orElse (progress ?w1) 0 < 30"
    by (simp add: inMode_def)
  from create_runs_or_resumes[OF m2, of specModes sampleWorker calm plainOptions] late
  have "events (fst (doWorkspaceOperation specModes sampleWorker calm ?w2 plainOptions)) =
          [(''create-done'', orElse (progress ?w2) 0)]"
    by blast
  moreover
  from create_runs_or_resumes[OF m1, of specModes sampleWorker calm plainOptions] fresh
  have "CreateWorkspace (workspace ?w1)
          \<in> set (fst (doWorkspaceOperation specModes sampleWorker calm ?w1 plainOptions))"
    by blast
  ultimately show ?thesis
    using late by (simp add: inMode_def)
qed
subsection \<open>MigrateClean\<close>




subsection \<open>Cleanup and the reindex call\<close>

text \<open>
  Claim C6, as stated, has every Delete call the reindex endpoint. A worker constructed
  without \<open>fulltextUrl\<close> deletes the workspace and reports \<open>delete-done\<close> without any
  reindex request.
\<close>

theorem delete_without_fulltext_counterexample:
  "fst (doWorkspaceOperation specModes (sampleWorker\<lparr>fulltextUrl := None\<rparr>) calm
          (inMode ''w5'' ''deleting'') plainOptions) =
     [SendEvent ''w5'' ''delete-started'' 0, GetTransactorEndpoint,
      ConsoleLog ''sending event'', ForceClose ''w5'', DeleteWorkspace ''w5'',
      SendEvent ''w5'' ''delete-done'' 100]"
  by code_simp

text \<open>
  Claim C6, amended. When the database delete succeeds: with a \<open>fulltextUrl\<close> configured
  the cleanup calls the reindex endpoint, with \<open>onlyDrop=true\<close> in the Delete phase and
  \<open>onlyDrop=false\<close> in ArchiveClean, and with none configured it makes no reindex call;
  a reindex call that fails (a response that is not ok, or a network error) is logged and
  swallowed, and in every case the events are the started event at 0 and the done event
  at 100.
\<close>

theorem cleanup_reindex_and_done:
  assumes "deleteWorkspace e = Returns ()"
  shows "(orElse (mode ws) ''active'' = ''pending-deletion'' \<or>
          orElse (mode ws) ''active'' = ''deleting'' \<longrightarrow>
            events (fst (doWorkspaceOperation core w e ws opt)) =
              [(''delete-started'', 0), (''delete-done'', 100)]
            \<and> (fulltextUrl w \<noteq> None \<longrightarrow>
                  Reindex (workspace ws) True \<in> set (fst (doWorkspaceOperation core w e ws opt))
                  \<and> Reindex (workspace ws) False
                       \<notin> set (fst (doWorkspaceOperation core w e ws opt))
                  \<and> (fetchReindex e \<noteq> Returns True \<longrightarrow>
                        CtxError ''failed to reset index''
                          \<in> set (fst (doWorkspaceOperation core w e ws opt))))
            \<and> (fulltextUrl w = None \<longrightarrow>
                  (\<forall>b. Reindex (workspace ws) b
                          \<notin> set (fst (doWorkspaceOperation core w e ws opt)))))
       \<and> (orElse (mode ws) ''active'' = ''archiving-pending-clean'' \<or>
          orElse (mode ws) ''active'' = ''archiving-clean'' \<longrightarrow>
            events (fst (doWorkspaceOperation core w e ws opt)) =
              [(''archiving-clean-started'', 0), (''archiving-clean-done'', 100)]
            \<and> (fulltextUrl w \<noteq> None \<longrightarrow>
                  Reindex (workspace ws) False \<in> set (fst (doWorkspaceOperation core w e ws opt))
                  \<and> Reindex (workspace ws) True
                       \<notin> set (fst (doWorkspaceOperation core w e ws opt))
                  \<and> (fetchReindex e \<noteq> Returns True \<longrightarrow>
                        CtxError ''failed to reset index''
                          \<in> set (fst (doWorkspaceOperation core w e ws opt))))
            \<and> (fulltextUrl w = None \<longrightarrow>
                  (\<forall>b. Reindex (workspace ws) b
                          \<notin> set (fst (doWorkspaceOperation core w e ws opt)))))"
proof (intro conjI impI)
  assume m: "orElse (mode ws) ''active'' = ''pending-deletion'' \<or>
             orElse (mode ws) ''active'' = ''deleting''"
  have tr: "fst (doWorkspaceOperation core w e ws opt) =
              SendEvent (workspace ws) ''delete-started'' 0
                # fst (sendTransactorMaitenance e (workspace ws))
                @ DeleteWorkspace (workspace ws) # fst (doReindexFulltext w e ws True)
                @ [SendEvent (workspace ws) ''delete-done'' 100]"
    using assms
    by (simp add: in_delete[OF m] doCleanup_def sendEvent_def io_unfold
        sendTransactorMaitenance_snd doReindexFulltext_snd)
  show "events (fst (doWorkspaceOperation core w e ws opt)) =
          [(''delete-started'', 0), (''delete-done'', 100)]"
    by (simp add: tr events_append sendTransactorMaitenance_events doReindexFulltext_events)
  show "fulltextUrl w \<noteq> None \<Longrightarrow>
          Reindex (workspace ws) True \<in> set (fst (doWorkspaceOperation core w e ws opt))"
    by (auto simp: tr doReindexFulltext_configured)
  show "fulltextUrl w \<noteq> None \<Longrightarrow>
          Reindex (workspace ws) False \<notin> set (fst (doWorkspaceOperation core w e ws opt))"
    using sendTransactorMaitenance_actions[of "Reindex (workspace ws) False" e "workspace ws"]
    by (auto simp: tr doReindexFulltext_configured split: if_splits)
  show "fulltextUrl w \<noteq> None \<Longrightarrow> fetchReindex e \<noteq> Returns True \<Longrightarrow>
          CtxError ''failed to reset index'' \<in> set (fst (doWorkspaceOperation core w e ws opt))"
    by (auto simp: tr doReindexFulltext_configured)
  show "fulltextUrl w = None \<Longrightarrow>
          \<forall>b. Reindex (workspace ws) b \<notin> set (fst (doWorkspaceOperation core w e ws opt))"
    using sendTransactorMaitenance_actions[of "Reindex (workspace ws) _" e "workspace ws"]
    by (auto simp: tr doReindexFulltext_absent)
next
  assume m: "orElse (mode ws) ''active'' = ''archiving-pending-clean'' \<or>
             orElse (mode ws) ''active'' = ''archiving-clean''"
  have tr: "fst (doWorkspaceOperation core w e ws opt) =
              SendEvent (workspace ws) ''archiving-clean-started'' 0
                # DeleteWorkspace (workspace ws) # fst (doReindexFulltext w e ws False)
                @ [SendEvent (workspace ws) ''archiving-clean-done'' 100]"
    using assms
    by (simp add: in_archiving_clean[OF m] doCleanup_def sendEvent_def io_unfold
        doReindexFulltext_snd)
  show "events (fst (doWorkspaceOperation core w e ws opt)) =
          [(''archiving-clean-started'', 0), (''archiving-clean-done'', 100)]"
    by (simp add: tr events_append doReindexFulltext_events)
  show "fulltextUrl w \<noteq> None \<Longrightarrow>
          Reindex (workspace ws) False \<in> set (fst (doWorkspaceOperation core w e ws opt))"
    by (auto simp: tr doReindexFulltext_configured)
  show "fulltextUrl w \<noteq> None \<Longrightarrow>
          Reindex (workspace ws) True \<notin> set (fst (doWorkspaceOperation core w e ws opt))"
    by (auto simp: tr doReindexFulltext_configured split: if_splits)
  show "fulltextUrl w \<noteq> None \<Longrightarrow> fetchReindex e \<noteq> Returns True \<Longrightarrow>
          CtxError ''failed to reset index'' \<in> set (fst (doWorkspaceOperation core w e ws opt))"
    by (auto simp: tr doReindexFulltext_configured)
  show "fulltextUrl w = None \<Longrightarrow>
          \<forall>b. Reindex (workspace ws) b \<notin> set (fst (doWorkspaceOperation core w e ws opt))"
    by (auto simp: tr doReindexFulltext_absent)
qed
theorem cleanup_reindex_and_done_witness:
  "deleteWorkspace (calm\<lparr>fetchReindex := Returns False\<rparr>) = Returns ()
   \<and> orElse (mode (inMode ''w5'' ''deleting'')) ''active'' = ''deleting''
   \<and> fulltextUrl sampleWorker \<noteq> None
   \<and> fetchReindex (calm\<lparr>fetchReindex := Returns False\<rparr>) \<noteq> Returns True
   \<and> events (fst (doWorkspaceOperation specModes sampleWorker
                    (calm\<lparr>fetchReindex := Returns False\<rparr>)
                    (inMode ''w5'' ''deleting'') plainOptions)) =
       [(''delete-started'', 0), (''delete-done'', 100)]
   \<and> Reindex ''w5'' True
       \<in> set (fst (doWorkspaceOperation specModes sampleWorker
                     (calm\<lparr>fetchReindex := Returns False\<rparr>)
                     (inMode ''w5'' ''deleting'') plainOptions))
   \<and> CtxError ''failed to reset index''
       \<in> set (fst (doWorkspaceOperation specModes sampleWorker
                     (calm\<lparr>fetchReindex := Returns False\<rparr>)
                     (inMode ''w5'' ''deleting'') plainOptions))"
proof -
  let ?e = "calm\<lparr>fetchReindex := Returns False\<rparr>"
  let ?ws = "inMode ''w5'' ''deleting''"
  have d: "deleteWorkspace ?e = Returns ()"
    by (simp add: calm_def)
  have m: "orElse (mode ?ws) ''active'' = ''pending-deletion'' \<or>
           orElse (mode ?ws) ''active'' = ''deleting''"
    by (simp add: inMode_def)
  have u: "fulltextUrl sampleWorker \<noteq> None"
    by (simp add: sampleWorker_def)
  have f: "fetchReindex ?e \<noteq> Returns True"
    by simp
  from cleanup_reindex_and_done[OF d, of ?ws specModes sampleWorker plainOptions] m u f
  have "events (fst (doWorkspaceOperation specModes sampleWorker ?e ?ws plainOptions)) =
          [(''delete-started'', 0), (''delete-done'', 100)]
        \<and> Reindex (workspace ?ws) True
            \<in> set (fst (doWorkspaceOperation specModes sampleWorker ?e ?ws plainOptions))
        \<and> CtxError ''failed to reset index''
            \<in> set (fst (doWorkspaceOperation specModes sampleWorker ?e ?ws plainOptions))"
    by blast
  then show ?thesis
    using d u by (simp add: inMode_def)
qed

subsection \<open>Upgrade\<close>

lemma String_includes_sublist: "String_includes s t \<longleftrightarrow> sublist t s"
  by (induction s) (auto simp: sublist_Cons_right)

text \<open>
  What \<open>_upgradeWorkspace\<close> computes as it is written: it is a no-op exactly when
  \<open>disabled\<close> is true, or one of the three mode predicates holds, or the workspace name
  is a substring of the \<open>ignore\<close> option (the empty string when the option is absent);
  otherwise \<open>upgradeWorkspace\<close> is called.
\<close>

lemma upgrade_noop_as_written:
  "(fst (WorkspaceWorker_upgradeWorkspace core e ws opt) = [] \<longleftrightarrow>
      disabled ws = Some True
      \<or> isArchivingMode core (mode ws)
      \<or> isMigrationMode core (mode ws)
      \<or> isRestoringMode core (mode ws)
      \<or> sublist (workspace ws) (orElse (ignore opt) []))
   \<and> (fst (WorkspaceWorker_upgradeWorkspace core e ws opt) = [] \<longrightarrow>
        snd (WorkspaceWorker_upgradeWorkspace core e ws opt) = Returns ())
   \<and> (fst (WorkspaceWorker_upgradeWorkspace core e ws opt) \<noteq> [] \<longrightarrow>
        UpgradeWorkspace (workspace ws) (force opt)
          \<in> set (fst (WorkspaceWorker_upgradeWorkspace core e ws opt)))"
  by (auto simp: WorkspaceWorker_upgradeWorkspace_def upgradeSkipped_def upgradeBody_def
      upgradeCatch_def String_includes_sublist io_unfold split: outcome.splits)

text \<open>
  Every entry of a comma-separated option is a substring of it, so a workspace that the
  option lists is skipped, as the claim says.
\<close>

lemma splitOn_nonempty: "splitOn d s \<noteq> []"
  by (induction s) (auto split: list.splits)

lemma splitOn_hd_prefix: "prefix (hd (splitOn d s)) s"
  by (induction s) (auto split: list.splits)

lemma splitOn_entry_sublist: "x \<in> set (splitOn d s) \<Longrightarrow> sublist x s"
proof (induction s arbitrary: x)
  case Nil
  then show ?case by simp
next
  case (Cons c cs)
  show ?case
  proof (cases "c = d")
    case True
    with Cons.prems have "x = [] \<or> x \<in> set (splitOn d cs)"
      by auto
    then show ?thesis
      using Cons.IH by (auto simp: sublist_Cons_right)
  next
    case False
    obtain y ys where sp: "splitOn d cs = y # ys"
      using splitOn_nonempty[of d cs] by (cases "splitOn d cs") auto
    with False Cons.prems have "x = c # y \<or> x \<in> set ys"
      by auto
    then show ?thesis
    proof
      assume x: "x = c # y"
      have "prefix y cs"
        using splitOn_hd_prefix[of d cs] sp by simp
      then show ?thesis
        by (simp add: x sublist_Cons_right)
    next
      assume "x \<in> set ys"
      then have "sublist x cs"
        using Cons.IH sp by simp
      then show ?thesis
        by (simp add: sublist_Cons_right)
    qed
  qed
qed

lemma listed_workspace_is_skipped:
  "ignore opt = Some ign \<Longrightarrow> listedIn (workspace ws) ign \<Longrightarrow>
     WorkspaceWorker_upgradeWorkspace core e ws opt = ([], Returns ())"
  by (simp add: WorkspaceWorker_upgradeWorkspace_def upgradeSkipped_def listedIn_def
      String_includes_sublist splitOn_entry_sublist)


text \<open>
  Claim C7. The Upgrade handler is a no-op if and only if \<open>disabled\<close> is true, or the
  mode is an archiving, migration or restoring mode, or the workspace name appears in
  the comma-separated \<open>ignore\<close> option. The source tests
  \<open>(opt.ignore ?? '').includes(ws.workspace)\<close> on the option as a whole: with
  \<open>ignore = "ws10,ws20"\<close>, whose entries are \<open>ws10\<close> and \<open>ws20\<close>, the workspace \<open>ws1\<close>,
  enabled and in mode \<open>upgrading\<close>, is skipped although the option does not name it.
\<close>

theorem upgrade_skips_unlisted_workspace:
  "doWorkspaceOperation specModes sampleWorker calm (inMode ''ws1'' ''upgrading'')
       (plainOptions\<lparr>ignore := Some ''ws10,ws20''\<rparr>) = ([], Returns ())
   \<and> WorkspaceWorker_upgradeWorkspace specModes calm (inMode ''ws1'' ''upgrading'')
       (plainOptions\<lparr>ignore := Some ''ws10,ws20''\<rparr>) = ([], Returns ())
   \<and> \<not> (disabled (inMode ''ws1'' ''upgrading'') = Some True
         \<or> isArchivingMode specModes (mode (inMode ''ws1'' ''upgrading''))
         \<or> isMigrationMode specModes (mode (inMode ''ws1'' ''upgrading''))
         \<or> isRestoringMode specModes (mode (inMode ''ws1'' ''upgrading''))
         \<or> listedIn ''ws1'' ''ws10,ws20'')
   \<and> splitOn CHR '','' ''ws10,ws20'' = [''ws10'', ''ws20'']"
  by code_simp

subsection \<open>Backup and restore without a backup option\<close>

text \<open>
  Claim C10. With \<open>opt.backup\<close> undefined, \<open>doBackup\<close> and \<open>doRestore\<close> return \<open>false\<close> at
  once, doing nothing (no storage adapter is built), so a backup phase (ArchiveBackup,
  MigrateBackup) and the restore phase send their started event at progress 0 and never
  their done event.
\<close>

theorem no_backup_option_no_done:
  assumes "backup opt = None"
  shows "doBackup e ws opt b = ([], Returns False)
       \<and> doRestore e ws opt = ([], Returns False)
       \<and> (orElse (mode ws) ''active'' = ''archiving-pending-backup'' \<or>
          orElse (mode ws) ''active'' = ''archiving-backup'' \<longrightarrow>
            events (fst (doWorkspaceOperation core w e ws opt)) =
              [(''archiving-backup-started'', 0)]
            \<and> BuildStorage \<notin> set (fst (doWorkspaceOperation core w e ws opt)))
       \<and> (orElse (mode ws) ''active'' = ''migration-pending-backup'' \<or>
          orElse (mode ws) ''active'' = ''migration-backup'' \<longrightarrow>
            events (fst (doWorkspaceOperation core w e ws opt)) =
              [(''migrate-backup-started'', 0)]
            \<and> BuildStorage \<notin> set (fst (doWorkspaceOperation core w e ws opt)))
       \<and> (orElse (mode ws) ''active'' = ''pending-restore'' \<or>
          orElse (mode ws) ''active'' = ''restoring'' \<longrightarrow>
            events (fst (doWorkspaceOperation core w e ws opt)) = [(''restore-started'', 0)]
            \<and> BuildStorage \<notin> set (fst (doWorkspaceOperation core w e ws opt)))"
proof (intro conjI impI)
  show "doBackup e ws opt b = ([], Returns False)"
    using assms by (simp add: doBackup_def)
  show "doRestore e ws opt = ([], Returns False)"
    using assms by (simp add: doRestore_def)
next
  assume m: "orElse (mode ws) ''active'' = ''archiving-pending-backup'' \<or>
             orElse (mode ws) ''active'' = ''archiving-backup''"
  have tr: "fst (doWorkspaceOperation core w e ws opt) =
              SendEvent (workspace ws) ''archiving-backup-started'' 0
                # fst (sendTransactorMaitenance e (workspace ws))"
    using assms
    by (simp add: in_archiving_backup[OF m] doBackup_def sendEvent_def io_unfold
        sendTransactorMaitenance_snd)
  show "events (fst (doWorkspaceOperation core w e ws opt)) =
          [(''archiving-backup-started'', 0)]"
    by (simp add: tr sendTransactorMaitenance_events)
  show "BuildStorage \<notin> set (fst (doWorkspaceOperation core w e ws opt))"
    using sendTransactorMaitenance_actions[of BuildStorage e "workspace ws"]
    by (auto simp: tr)
next
  assume m: "orElse (mode ws) ''active'' = ''migration-pending-backup'' \<or>
             orElse (mode ws) ''active'' = ''migration-backup''"
  have tr: "fst (doWorkspaceOperation core w e ws opt) =
              SendEvent (workspace ws) ''migrate-backup-started'' 0
                # fst (sendTransactorMaitenance e (workspace ws))"
    using assms
    by (simp add: in_migration_backup[OF m] doBackup_def sendEvent_def io_unfold
        sendTransactorMaitenance_snd)
  show "events (fst (doWorkspaceOperation core w e ws opt)) =
          [(''migrate-backup-started'', 0)]"
    by (simp add: tr sendTransactorMaitenance_events)
  show "BuildStorage \<notin> set (fst (doWorkspaceOperation core w e ws opt))"
    using sendTransactorMaitenance_actions[of BuildStorage e "workspace ws"]
    by (auto simp: tr)
next
  assume m: "orElse (mode ws) ''active'' = ''pending-restore'' \<or>
             orElse (mode ws) ''active'' = ''restoring''"
  have tr: "fst (doWorkspaceOperation core w e ws opt) =
              [SendEvent (workspace ws) ''restore-started'' 0]"
    using assms
    by (simp add: in_restore[OF m] doRestore_def sendEvent_def io_unfold)
  show "events (fst (doWorkspaceOperation core w e ws opt)) = [(''restore-started'', 0)]"
    by (simp add: tr)
  show "BuildStorage \<notin> set (fst (doWorkspaceOperation core w e ws opt))"
    by (simp add: tr)
qed

theorem no_backup_option_no_done_witness:
  "backup (plainOptions\<lparr>backup := None\<rparr>) = None
   \<and> orElse (mode (inMode ''w4'' ''archiving-backup'')) ''active'' = ''archiving-backup''
   \<and> events (fst (doWorkspaceOperation specModes sampleWorker calm
                    (inMode ''w4'' ''archiving-backup'') (plainOptions\<lparr>backup := None\<rparr>))) =
       [(''archiving-backup-started'', 0)]
   \<and> events (fst (doWorkspaceOperation specModes sampleWorker calm
                    (inMode ''w8'' ''restoring'') (plainOptions\<lparr>backup := None\<rparr>))) =
       [(''restore-started'', 0)]"
proof -
  let ?opt = "plainOptions\<lparr>backup := None\<rparr>"
  let ?w4 = "inMode ''w4'' ''archiving-backup''"
  let ?w8 = "inMode ''w8'' ''restoring''"
  have n: "backup ?opt = None"
    by simp
  have m4: "orElse (mode ?w4) ''active'' = ''archiving-pending-backup'' \<or>
            orElse (mode ?w4) ''active'' = ''archiving-backup''"
    by (simp add: inMode_def)
  have m8: "orElse (mode ?w8) ''active'' = ''pending-restore'' \<or>
            orElse (mode ?w8) ''active'' = ''restoring''"
    by (simp add: inMode_def)
  from no_backup_option_no_done[OF n, of calm ?w4 True specModes sampleWorker] m4
  have a: "events (fst (doWorkspaceOperation specModes sampleWorker calm ?w4 ?opt)) =
             [(''archiving-backup-started'', 0)]"
    by blast
  from no_backup_option_no_done[OF n, of calm ?w8 True specModes sampleWorker] m8
  have b: "events (fst (doWorkspaceOperation specModes sampleWorker calm ?w8 ?opt)) =
             [(''restore-started'', 0)]"
    by blast
  from a b show ?thesis
    by (simp add: inMode_def)
qed
subsection \<open>The progress reporter\<close>

lemma progressCalls_append: "progressCalls (xs @ ys) = progressCalls xs @ progressCalls ys"
  by (induction xs rule: progressCalls.induct) auto

lemma progressValues_append: "progressValues (xs @ ys) = progressValues xs @ progressValues ys"
  by (induction xs rule: progressValues.induct) auto

lemma progressValues_relayed: "progressValues (relayed ws evs) = map snd evs"
  by (induction evs) (auto simp: relayed_def)

lemma progressValues_events: "progressValues tr = map snd (events tr)"
  by (induction tr rule: events.induct) auto

lemma runCallbacks_Report:
  "runCallbacks ws v (Report p # cbs) =
     (fst (runCallbacks ws (fst (onProgress ws v p)) cbs),
      snd (onProgress ws v p) @ snd (runCallbacks ws (fst (onProgress ws v p)) cbs))"
  by (simp split: prod.splits)

lemma runCallbacks_PingTick:
  "runCallbacks ws v (PingTick # cbs) =
     (fst (runCallbacks ws v cbs),
      WsEvent (workspace ws) ''ping'' v # snd (runCallbacks ws v cbs))"
  by (simp add: onPing_def split: prod.splits)

lemma runCallbacks_recorded:
  "fst (runCallbacks ws v cbs) = last (v # progressCalls (snd (runCallbacks ws v cbs)))"
proof (induction cbs arbitrary: v)
  case Nil
  show ?case by simp
next
  case (Cons cb cbs)
  show ?case
  proof (cases cb)
    case (Report p)
    show ?thesis
      using Cons.IH[of v] Cons.IH[of "Math_round p"]
      unfolding Report runCallbacks_Report
      by (simp add: onProgress_def progressCalls_append)
  next
    case PingTick
    show ?thesis
      using Cons.IH[of v]
      unfolding PingTick runCallbacks_PingTick
      by simp
  qed
qed

lemma doBackup_progressCalls:
  "backup opt \<noteq> None \<Longrightarrow>
     progressCalls (fst (doBackup e ws opt b)) =
       progressCalls (snd (runCallbacks ws 0 (fst (doBackupWorkspace e))))"
  by (auto simp: doBackup_def io_unfold progressCalls_append split: outcome.splits)

lemma doRestore_progressCalls:
  "backup opt \<noteq> None \<Longrightarrow>
     progressCalls (fst (doRestore e ws opt)) =
       progressCalls (snd (runCallbacks ws 0 (fst (doRestoreWorkspace e))))"
  by (auto simp: doRestore_def io_unfold progressCalls_append split: outcome.splits)

text \<open>
  Claim C8, as stated, has two reports of the same rounded percent in a row result in
  exactly one network call. A backup that reports 0.2 and then 0.3 percent, both rounding
  to 0, the value the variable \<open>progress\<close> starts with, sends no \<open>progress\<close> event at all.
\<close>

theorem same_percent_twice_counterexample:
  "Math_round (1 / 5) = Math_round (3 / 10)
   \<and> progressCalls
        (fst (doBackup (calm\<lparr>doBackupWorkspace := ([Report (1 / 5), Report (3 / 10)],
                                                    Returns True)\<rparr>)
                (inMode ''w4'' ''archiving-backup'') plainOptions True)) = []"
  by code_simp

lemma runReports_Cons:
  "runReports v (p # ps) =
     (fst (runReports (fst (onProgressNumber v p)) ps),
      snd (onProgressNumber v p) @ snd (runReports (fst (onProgressNumber v p)) ps))"
  by (simp split: prod.splits)

lemma runReports_recorded: "fst (runReports v ps) = last (v # snd (runReports v ps))"
proof (induction ps arbitrary: v)
  case Nil
  show ?case by simp
next
  case (Cons p ps)
  show ?case
    using Cons.IH[of v] Cons.IH[of "Math_round_js p"]
    unfolding runReports_Cons
    by (simp add: onProgressNumber_def)
qed

lemma runCallbacks_runReports:
  "map Num (progressCalls (snd (runCallbacks ws u cbs))) =
     snd (runReports (Num u) (map Num (reports cbs)))
   \<and> Num (fst (runCallbacks ws u cbs)) = fst (runReports (Num u) (map Num (reports cbs)))"
proof (induction cbs arbitrary: u)
  case Nil
  show ?case by simp
next
  case (Cons cb cbs)
  show ?case
  proof (cases cb)
    case (Report p)
    show ?thesis
      using Cons.IH[of u] Cons.IH[of "Math_round p"]
      unfolding Report runCallbacks_Report reports.simps list.map runReports_Cons
      by (simp add: onProgress_def onProgressNumber_def strictNotEqual_def
          progressCalls_append)
  next
    case PingTick
    show ?thesis
      using Cons.IH[of u]
      unfolding PingTick runCallbacks_PingTick
      by simp
  qed
qed


text \<open>
  Claim C8, amended. During backup and restore a \<open>progress\<close> event is sent exactly when
  the reported value, rounded to an integer percent, is \<open>!==\<close> the recorded value, which
  is the last rounded value sent, or 0 while none has been sent. For reports that are not
  \<open>NaN\<close>, reporting the same rounded percent twice in a row results in at most one
  network call: one if that percent differs from the recorded value, none if it equals
  it. A \<open>NaN\<close> report is always sent, so \<open>NaN\<close> twice in a row results in two calls.
  The first five parts are over every number; the rest say the same of the callback inside
  \<open>doBackup\<close> and \<open>doRestore\<close> on the finite reports of a schedule.
\<close>

theorem progress_sent_on_change:
  "snd (onProgressNumber v p) =
     (if strictNotEqual v (Math_round_js p) then [Math_round_js p] else [])
   \<and> (Math_round_js p = Math_round_js q \<and> Math_round_js p \<noteq> NaN \<longrightarrow>
        snd (runReports v [p, q]) = (if v = Math_round_js p then [] else [Math_round_js p]))
   \<and> snd (runReports v [NaN, NaN]) = [NaN, NaN]
   \<and> fst (runReports v ps) = last (v # snd (runReports v ps))
   \<and> map Num (progressCalls (snd (runCallbacks ws u cbs))) =
       snd (runReports (Num u) (map Num (reports cbs)))
   \<and> progressCalls (snd (onProgress ws u a)) = (if Math_round a = u then [] else [Math_round a])
   \<and> (Math_round a = Math_round b \<longrightarrow>
        progressCalls (snd (runCallbacks ws u [Report a, Report b])) =
          (if Math_round a = u then [] else [Math_round a]))
   \<and> fst (runCallbacks ws u cbs) = last (u # progressCalls (snd (runCallbacks ws u cbs)))
   \<and> (backup opt \<noteq> None \<longrightarrow>
        progressCalls (fst (doBackup e ws opt full)) =
          progressCalls (snd (runCallbacks ws 0 (fst (doBackupWorkspace e))))
        \<and> progressCalls (fst (doRestore e ws opt)) =
            progressCalls (snd (runCallbacks ws 0 (fst (doRestoreWorkspace e)))))"
proof (intro conjI impI)
  show "snd (onProgressNumber v p) =
          (if strictNotEqual v (Math_round_js p) then [Math_round_js p] else [])"
    by (simp add: onProgressNumber_def)
  show "snd (runReports v [p, q]) = (if v = Math_round_js p then [] else [Math_round_js p])"
    if "Math_round_js p = Math_round_js q \<and> Math_round_js p \<noteq> NaN"
    using that by (auto simp: onProgressNumber_def strictNotEqual_def)
  show "snd (runReports v [NaN, NaN]) = [NaN, NaN]"
    by (simp add: onProgressNumber_def strictNotEqual_def)
  show "fst (runReports v ps) = last (v # snd (runReports v ps))"
    by (rule runReports_recorded)
  show "map Num (progressCalls (snd (runCallbacks ws u cbs))) =
          snd (runReports (Num u) (map Num (reports cbs)))"
    using runCallbacks_runReports by blast
  show "progressCalls (snd (onProgress ws u a)) =
          (if Math_round a = u then [] else [Math_round a])"
    by (auto simp: onProgress_def)
  show "progressCalls (snd (runCallbacks ws u [Report a, Report b])) =
          (if Math_round a = u then [] else [Math_round a])"
    if "Math_round a = Math_round b"
    using that by (auto simp: onProgress_def)
  show "fst (runCallbacks ws u cbs) = last (u # progressCalls (snd (runCallbacks ws u cbs)))"
    by (rule runCallbacks_recorded)
  show "progressCalls (fst (doBackup e ws opt full)) =
          progressCalls (snd (runCallbacks ws 0 (fst (doBackupWorkspace e))))"
    if "backup opt \<noteq> None"
    using that by (rule doBackup_progressCalls)
  show "progressCalls (fst (doRestore e ws opt)) =
          progressCalls (snd (runCallbacks ws 0 (fst (doRestoreWorkspace e))))"
    if "backup opt \<noteq> None"
    using that by (rule doRestore_progressCalls)
qed

theorem progress_sent_on_change_witness:
  "Math_round_js (Num (51 / 5)) = Math_round_js (Num (52 / 5))
   \<and> Math_round_js (Num (51 / 5)) = Num 10
   \<and> snd (runReports (Num 0) [Num (51 / 5), Num (52 / 5)]) = [Num 10]
   \<and> snd (runReports (Num 10) [Num (51 / 5), Num (52 / 5)]) = []
   \<and> snd (runReports (Num 0) [NaN, NaN]) = [NaN, NaN]
   \<and> Math_round (51 / 5) = Math_round (52 / 5)
   \<and> backup plainOptions \<noteq> None
   \<and> progressCalls (snd (runCallbacks (inMode ''w4'' ''archiving-backup'') 0
                           [Report (51 / 5), Report (52 / 5)])) = [10]
   \<and> progressCalls (fst (doBackup calm (inMode ''w4'' ''archiving-backup'') plainOptions True))
       = [100]"
proof -
  let ?ws = "inMode ''w4'' ''archiving-backup''"
  have r: "Math_round (51 / 5) = Math_round (52 / 5)"
    by code_simp
  have r10: "Math_round (51 / 5) = 10"
    by code_simp
  have j: "Math_round_js (Num (51 / 5)) = Math_round_js (Num (52 / 5))
           \<and> Math_round_js (Num (51 / 5)) \<noteq> NaN"
    using r by simp
  have bk: "backup plainOptions \<noteq> None"
    by (simp add: plainOptions_def)
  note at0 = progress_sent_on_change[of "Num 0" "Num (51 / 5)" "Num (52 / 5)" "[]" ?ws 0 "[]"
      "51 / 5" "52 / 5" plainOptions calm True]
  note at10 = progress_sent_on_change[of "Num 10" "Num (51 / 5)" "Num (52 / 5)" "[]" ?ws 0 "[]"
      "51 / 5" "52 / 5" plainOptions calm True]
  from at0 j have a0: "snd (runReports (Num 0) [Num (51 / 5), Num (52 / 5)]) =
      (if Num 0 = Math_round_js (Num (51 / 5)) then [] else [Math_round_js (Num (51 / 5))])"
    by blast
  from at10 j have a10: "snd (runReports (Num 10) [Num (51 / 5), Num (52 / 5)]) =
      (if Num 10 = Math_round_js (Num (51 / 5)) then [] else [Math_round_js (Num (51 / 5))])"
    by blast
  from at0 have n: "snd (runReports (Num 0) [NaN, NaN]) = [NaN, NaN]"
    by blast
  from at0 r
  have a: "progressCalls (snd (runCallbacks ?ws 0 [Report (51 / 5), Report (52 / 5)])) =
             (if Math_round (51 / 5) = 0 then [] else [Math_round (51 / 5)])"
    by blast
  from at0 bk
  have b: "progressCalls (fst (doBackup calm ?ws plainOptions True)) =
             progressCalls (snd (runCallbacks ?ws 0 (fst (doBackupWorkspace calm))))"
    by blast
  have c: "progressCalls (snd (runCallbacks ?ws 0 (fst (doBackupWorkspace calm)))) = [100]"
    by code_simp
  from a0 a10 n a b c r r10 bk show ?thesis
    by simp
qed

subsection \<open>Monotone progress\<close>

lemma Math_round_mono: "p \<le> q \<Longrightarrow> Math_round p \<le> Math_round q"
  by (simp add: Math_round_def floor_mono)

lemma Math_round_0: "Math_round 0 = 0"
  by code_simp

lemma Math_round_100: "Math_round 100 = 100"
  by code_simp

lemma runCallbacks_sorted:
  assumes "sorted (reports cbs)"
    and "\<forall>p\<in>set (reports cbs). v \<le> Math_round p \<and> Math_round p \<le> hi"
    and "v \<le> hi"
  shows "sorted (v # progressValues (snd (runCallbacks ws v cbs)) @ [hi])"
  using assms
proof (induction cbs arbitrary: v)
  case Nil
  then show ?case by simp
next
  case (Cons cb cbs)
  show ?case
  proof (cases cb)
    case (Report p)
    have later: "\<forall>q\<in>set (reports cbs). Math_round p \<le> Math_round q \<and> Math_round q \<le> hi"
      using Cons.prems by (auto simp: Report intro: Math_round_mono)
    have here: "v \<le> Math_round p" "Math_round p \<le> hi"
      using Cons.prems by (auto simp: Report)
    have "sorted (Math_round p # progressValues (snd (runCallbacks ws (Math_round p) cbs)) @ [hi])"
      using Cons.IH[of "Math_round p"] Cons.prems(1) later here by (simp add: Report)
    then show ?thesis
      using here
      unfolding Report runCallbacks_Report
      by (auto simp: onProgress_def progressValues_append)
  next
    case PingTick
    have "sorted (v # progressValues (snd (runCallbacks ws v cbs)) @ [hi])"
      using Cons.IH[of v] Cons.prems by (simp add: PingTick)
    then show ?thesis
      unfolding PingTick runCallbacks_PingTick
      by simp
  qed
qed

lemma percent_callbacks_sorted:
  assumes "sorted (reports cbs)" and "\<forall>p\<in>set (reports cbs). 0 \<le> p \<and> p \<le> 100"
  shows "sorted (0 # progressValues (snd (runCallbacks ws 0 cbs)) @ [100])"
proof (rule runCallbacks_sorted[OF assms(1)])
  show "\<forall>p\<in>set (reports cbs). 0 \<le> Math_round p \<and> Math_round p \<le> 100"
    using assms(2) Math_round_mono[of 0] Math_round_mono[of _ 100]
    by (auto simp: Math_round_0 Math_round_100)
  show "(0::number) \<le> 100"
    by simp
qed

lemma sendTransactorMaitenance_progressValues:
  "progressValues (fst (sendTransactorMaitenance e n)) = []"
  by (simp add: progressValues_events sendTransactorMaitenance_events)

lemma doReindexFulltext_progressValues:
  "progressValues (fst (doReindexFulltext w e ws b)) = []"
  by (simp add: progressValues_events doReindexFulltext_events)

lemma doBackup_progressValues:
  "progressValues (fst (doBackup e ws opt b)) =
     (if backup opt = None then []
      else progressValues (snd (runCallbacks ws 0 (fst (doBackupWorkspace e)))))"
  by (auto simp: doBackup_def io_unfold progressValues_append split: outcome.splits)

lemma doRestore_progressValues:
  "progressValues (fst (doRestore e ws opt)) =
     (if backup opt = None then []
      else progressValues (snd (runCallbacks ws 0 (fst (doRestoreWorkspace e)))))"
  by (auto simp: doRestore_def io_unfold progressValues_append split: outcome.splits)

lemma sorted_without_last: "sorted (x # xs @ [y]) \<Longrightarrow> sorted (x # xs)"
  by (auto simp: sorted_append)

lemma backup_phase_sorted:
  assumes "sorted (reports (fst (doBackupWorkspace e)))"
    and "\<forall>p\<in>set (reports (fst (doBackupWorkspace e))). 0 \<le> p \<and> p \<le> 100"
  shows "sorted (progressValues (fst (
           andThen (sendEvent ws ev0 0)
             (\<lambda>_. andThen (sendTransactorMaitenance e (workspace ws))
               (\<lambda>_. andThen (doBackup e ws opt b)
                 (\<lambda>ok. if ok then sendEvent ws ev1 100 else ([], Returns ())))))))"
proof -
  let ?pv = "progressValues (snd (runCallbacks ws 0 (fst (doBackupWorkspace e))))"
  have full: "sorted (0 # ?pv @ [100])"
    using assms by (rule percent_callbacks_sorted)
  then have part: "sorted (0 # ?pv)"
    by (rule sorted_without_last)
  have "progressValues (fst (
           andThen (sendEvent ws ev0 0)
             (\<lambda>_. andThen (sendTransactorMaitenance e (workspace ws))
               (\<lambda>_. andThen (doBackup e ws opt b)
                 (\<lambda>ok. if ok then sendEvent ws ev1 100 else ([], Returns ())))))) =
        0 # progressValues (fst (doBackup e ws opt b))
          @ (if snd (doBackup e ws opt b) = Returns True then [100] else [])"
    by (auto simp: sendEvent_def io_unfold progressValues_append
        sendTransactorMaitenance_snd sendTransactorMaitenance_progressValues
        split: outcome.splits)
  then show ?thesis
    using full part by (auto simp: doBackup_progressValues)
qed

lemma restore_phase_sorted:
  assumes "sorted (reports (fst (doRestoreWorkspace e)))"
    and "\<forall>p\<in>set (reports (fst (doRestoreWorkspace e))). 0 \<le> p \<and> p \<le> 100"
  shows "sorted (progressValues (fst (
           andThen (sendEvent ws ''restore-started'' 0)
             (\<lambda>_. andThen (doRestore e ws opt)
               (\<lambda>ok. if ok then
                        andThen (doReindexFulltext w e ws False)
                          (\<lambda>_. sendEvent ws ''restore-done'' 100)
                      else ([], Returns ()))))))"
proof -
  let ?pv = "progressValues (snd (runCallbacks ws 0 (fst (doRestoreWorkspace e))))"
  have full: "sorted (0 # ?pv @ [100])"
    using assms by (rule percent_callbacks_sorted)
  then have part: "sorted (0 # ?pv)"
    by (rule sorted_without_last)
  have "progressValues (fst (
           andThen (sendEvent ws ''restore-started'' 0)
             (\<lambda>_. andThen (doRestore e ws opt)
               (\<lambda>ok. if ok then
                        andThen (doReindexFulltext w e ws False)
                          (\<lambda>_. sendEvent ws ''restore-done'' 100)
                      else ([], Returns ()))))) =
        0 # progressValues (fst (doRestore e ws opt))
          @ (if snd (doRestore e ws opt) = Returns True then [100] else [])"
    by (auto simp: sendEvent_def io_unfold progressValues_append
        doReindexFulltext_snd doReindexFulltext_progressValues
        split: outcome.splits)
  then show ?thesis
    using full part by (auto simp: doRestore_progressValues)
qed

lemma in_unknown:
  "orElse (mode ws) ''active'' \<notin>
     {''pending-creation'', ''creating'', ''upgrading'', ''active'',
      ''archiving-pending-backup'', ''archiving-backup'', ''archiving-pending-clean'',
      ''archiving-clean'', ''pending-deletion'', ''deleting'', ''migration-pending-backup'',
      ''migration-backup'', ''migration-pending-clean'', ''migration-clean'',
      ''pending-restore'', ''restoring''} \<Longrightarrow>
   doWorkspaceOperation core w e ws opt = act [CtxError ''Unknown workspace mode'']"
  by (simp add: doWorkspaceOperation_def Let_def)

lemma createWorkspace_progressValues:
  "progressValues (fst (WorkspaceWorker_createWorkspace e ws opt)) =
     (if mode ws \<noteq> Some ''creating'' \<or> orElse (progress ws) 0 < 30
      then map snd (fst (createWorkspace e))
      else [orElse (progress ws) 0])"
  by (auto simp: WorkspaceWorker_createWorkspace_def createBody_def createCatch_def
      io_unfold progressValues_append progressValues_relayed split: outcome.splits)

lemma upgradeWorkspace_progressValues:
  "progressValues (fst (WorkspaceWorker_upgradeWorkspace core e ws opt)) =
     (if upgradeSkipped core ws opt then [] else map snd (fst (upgradeWorkspace e)))"
  by (auto simp: WorkspaceWorker_upgradeWorkspace_def upgradeBody_def upgradeCatch_def
      io_unfold progressValues_append progressValues_relayed split: outcome.splits)

lemma doCleanup_progressValues: "progressValues (fst (doCleanup w e ws b)) = []"
  by (simp add: doCleanup_def io_unfold progressValues_append doReindexFulltext_progressValues
      split: outcome.splits)

lemma clean_phase_sorted:
  "hi \<in> {0, 100} \<Longrightarrow>
   sorted (progressValues (fst (
     andThen (sendEvent ws ev0 0) (\<lambda>_. tryOrReturn (doCleanup w e ws b) (sendEvent ws ev1 hi)))))"
  by (auto simp: sendEvent_def io_unfold progressValues_append doCleanup_progressValues
      split: outcome.splits)

lemma closed_clean_phase_sorted:
  "hi \<in> {0, 100} \<Longrightarrow> progressValues (fst m) = [] \<Longrightarrow>
   sorted (progressValues (fst (
     andThen (sendEvent ws ev0 0)
       (\<lambda>_. andThen (sendTransactorMaitenance e (workspace ws))
         (\<lambda>_. tryOrReturn m (sendEvent ws ev1 hi))))))"
  by (auto simp: sendEvent_def io_unfold progressValues_append
      sendTransactorMaitenance_snd sendTransactorMaitenance_progressValues
      split: outcome.splits)

lemma other_phases_sorted:
  "(orElse (mode ws) ''active'' \<in> {''pending-creation'', ''creating''}
      \<and> sorted (map snd (fst (createWorkspace e)))
      \<longrightarrow> sorted (progressValues (fst (doWorkspaceOperation core w e ws opt))))
   \<and> (orElse (mode ws) ''active'' \<in> {''upgrading'', ''active''}
      \<and> sorted (map snd (fst (upgradeWorkspace e)))
      \<longrightarrow> sorted (progressValues (fst (doWorkspaceOperation core w e ws opt))))
   \<and> (orElse (mode ws) ''active'' \<notin>
        {''pending-creation'', ''creating'', ''upgrading'', ''active'',
         ''archiving-pending-backup'', ''archiving-backup'', ''migration-pending-backup'',
         ''migration-backup'', ''pending-restore'', ''restoring''}
      \<longrightarrow> sorted (progressValues (fst (doWorkspaceOperation core w e ws opt))))"
proof (intro conjI impI; (elim conjE)?)
  assume m: "orElse (mode ws) ''active'' \<in> {''pending-creation'', ''creating''}"
    and s: "sorted (map snd (fst (createWorkspace e)))"
  from m have c: "orElse (mode ws) ''active'' = ''pending-creation'' \<or>
                  orElse (mode ws) ''active'' = ''creating''"
    by blast
  show "sorted (progressValues (fst (doWorkspaceOperation core w e ws opt)))"
    using s by (simp add: in_create[OF c] createWorkspace_progressValues)
next
  assume m: "orElse (mode ws) ''active'' \<in> {''upgrading'', ''active''}"
    and s: "sorted (map snd (fst (upgradeWorkspace e)))"
  from m have u: "orElse (mode ws) ''active'' = ''upgrading'' \<or>
                  orElse (mode ws) ''active'' = ''active''"
    by blast
  show "sorted (progressValues (fst (doWorkspaceOperation core w e ws opt)))"
    using s by (simp add: in_upgrade[OF u] upgradeWorkspace_progressValues)
next
  assume m: "orElse (mode ws) ''active'' \<notin>
        {''pending-creation'', ''creating'', ''upgrading'', ''active'',
         ''archiving-pending-backup'', ''archiving-backup'', ''migration-pending-backup'',
         ''migration-backup'', ''pending-restore'', ''restoring''}"
  consider
      (archive) "orElse (mode ws) ''active'' = ''archiving-pending-clean'' \<or>
                 orElse (mode ws) ''active'' = ''archiving-clean''"
    | (delete) "orElse (mode ws) ''active'' = ''pending-deletion'' \<or>
                orElse (mode ws) ''active'' = ''deleting''"
    | (migrate) "orElse (mode ws) ''active'' = ''migration-pending-clean'' \<or>
                 orElse (mode ws) ''active'' = ''migration-clean''"
    | (unknown) "orElse (mode ws) ''active'' \<notin>
        {''pending-creation'', ''creating'', ''upgrading'', ''active'',
         ''archiving-pending-backup'', ''archiving-backup'', ''archiving-pending-clean'',
         ''archiving-clean'', ''pending-deletion'', ''deleting'', ''migration-pending-backup'',
         ''migration-backup'', ''migration-pending-clean'', ''migration-clean'',
         ''pending-restore'', ''restoring''}"
    using m by blast
  then show "sorted (progressValues (fst (doWorkspaceOperation core w e ws opt)))"
  proof cases
    case archive
    show ?thesis
      unfolding in_archiving_clean[OF archive]
      by (rule clean_phase_sorted) simp
  next
    case delete
    show ?thesis
      unfolding in_delete[OF delete]
      by (rule closed_clean_phase_sorted) (simp_all add: doCleanup_progressValues)
  next
    case migrate
    show ?thesis
      unfolding in_migration_clean[OF migrate]
      by (rule closed_clean_phase_sorted) (simp_all add: doCleanup_progressValues)
  next
    case unknown
    show ?thesis
      by (simp add: in_unknown[OF unknown] act_def)
  qed
qed

text \<open>
  Claim C9, as stated, holds for every sequence of raw progress callbacks. The callback
  rounds and forwards whatever it is given: a restore that reports 50 and then 20 makes
  the worker send 0, 50, 20, 100.
\<close>

theorem progress_not_monotone_counterexample:
  "progressValues (fst (doWorkspaceOperation specModes sampleWorker calm
                          (inMode ''w8'' ''restoring'') plainOptions)) = [0, 50, 20, 100]
   \<and> \<not> sorted [0, 50, 20, 100 :: number]"
  by code_simp

text \<open>
  Claim C9, amended. Within one phase execution the sequence of progress values sent to
  the control plane (started event, pings, progress events, done event) is
  non-decreasing, provided what the external operation of the phase delivers is: in a
  backup or restore phase the raw progress values are non-decreasing and lie between 0
  and 100, however the timer ticks are interleaved and however the operation ends; in
  Create and Upgrade the events of \<open>createWorkspace\<close> and \<open>upgradeWorkspace\<close> carry
  non-decreasing progress. The clean and delete phases, and an unknown mode, need no
  assumption.
\<close>

theorem progress_monotone_for_monotone_reports:
  "(orElse (mode ws) ''active'' \<in>
      {''archiving-pending-backup'', ''archiving-backup'', ''migration-pending-backup'',
       ''migration-backup''}
    \<and> sorted (reports (fst (doBackupWorkspace e)))
    \<and> (\<forall>p\<in>set (reports (fst (doBackupWorkspace e))). 0 \<le> p \<and> p \<le> 100)
    \<longrightarrow> sorted (progressValues (fst (doWorkspaceOperation core w e ws opt))))
   \<and> (orElse (mode ws) ''active'' \<in> {''pending-restore'', ''restoring''}
    \<and> sorted (reports (fst (doRestoreWorkspace e)))
    \<and> (\<forall>p\<in>set (reports (fst (doRestoreWorkspace e))). 0 \<le> p \<and> p \<le> 100)
    \<longrightarrow> sorted (progressValues (fst (doWorkspaceOperation core w e ws opt))))
   \<and> (orElse (mode ws) ''active'' \<in> {''pending-creation'', ''creating''}
    \<and> sorted (map snd (fst (createWorkspace e)))
    \<longrightarrow> sorted (progressValues (fst (doWorkspaceOperation core w e ws opt))))
   \<and> (orElse (mode ws) ''active'' \<in> {''upgrading'', ''active''}
    \<and> sorted (map snd (fst (upgradeWorkspace e)))
    \<longrightarrow> sorted (progressValues (fst (doWorkspaceOperation core w e ws opt))))
   \<and> (orElse (mode ws) ''active'' \<notin>
        {''pending-creation'', ''creating'', ''upgrading'', ''active'',
         ''archiving-pending-backup'', ''archiving-backup'', ''migration-pending-backup'',
         ''migration-backup'', ''pending-restore'', ''restoring''}
    \<longrightarrow> sorted (progressValues (fst (doWorkspaceOperation core w e ws opt))))"
proof -
  have "(orElse (mode ws) ''active'' \<in>
      {''archiving-pending-backup'', ''archiving-backup'', ''migration-pending-backup'',
       ''migration-backup''}
    \<and> sorted (reports (fst (doBackupWorkspace e)))
    \<and> (\<forall>p\<in>set (reports (fst (doBackupWorkspace e))). 0 \<le> p \<and> p \<le> 100)
    \<longrightarrow> sorted (progressValues (fst (doWorkspaceOperation core w e ws opt))))
   \<and> (orElse (mode ws) ''active'' \<in> {''pending-restore'', ''restoring''}
    \<and> sorted (reports (fst (doRestoreWorkspace e)))
    \<and> (\<forall>p\<in>set (reports (fst (doRestoreWorkspace e))). 0 \<le> p \<and> p \<le> 100)
    \<longrightarrow> sorted (progressValues (fst (doWorkspaceOperation core w e ws opt))))"
  proof (intro conjI impI; elim conjE)
    assume m: "orElse (mode ws) ''active'' \<in>
                 {''archiving-pending-backup'', ''archiving-backup'',
                  ''migration-pending-backup'', ''migration-backup''}"
      and s: "sorted (reports (fst (doBackupWorkspace e)))"
      and r: "\<forall>p\<in>set (reports (fst (doBackupWorkspace e))). 0 \<le> p \<and> p \<le> 100"
    consider
        (archive) "orElse (mode ws) ''active'' = ''archiving-pending-backup'' \<or>
                   orElse (mode ws) ''active'' = ''archiving-backup''"
      | (migrate) "orElse (mode ws) ''active'' = ''migration-pending-backup'' \<or>
                   orElse (mode ws) ''active'' = ''migration-backup''"
      using m by blast
    then show "sorted (progressValues (fst (doWorkspaceOperation core w e ws opt)))"
    proof cases
      case archive
      show ?thesis
        unfolding in_archiving_backup[OF archive]
        using s r by (rule backup_phase_sorted)
    next
      case migrate
      show ?thesis
        unfolding in_migration_backup[OF migrate]
        using s r by (rule backup_phase_sorted)
    qed
  next
    assume m: "orElse (mode ws) ''active'' \<in> {''pending-restore'', ''restoring''}"
      and s: "sorted (reports (fst (doRestoreWorkspace e)))"
      and r: "\<forall>p\<in>set (reports (fst (doRestoreWorkspace e))). 0 \<le> p \<and> p \<le> 100"
    from m have restore: "orElse (mode ws) ''active'' = ''pending-restore'' \<or>
                          orElse (mode ws) ''active'' = ''restoring''"
      by blast
    show "sorted (progressValues (fst (doWorkspaceOperation core w e ws opt)))"
      unfolding in_restore[OF restore]
      using s r by (rule restore_phase_sorted)
  qed
  with other_phases_sorted[of ws e core w opt] show ?thesis
    by blast
qed

theorem progress_monotone_for_monotone_reports_witness:
  "orElse (mode (inMode ''w4'' ''archiving-backup'')) ''active'' = ''archiving-backup''
   \<and> reports (fst (doBackupWorkspace calm)) = [1 / 5, 3 / 10, 199 / 2]
   \<and> sorted (progressValues (fst (doWorkspaceOperation specModes sampleWorker calm
                (inMode ''w4'' ''archiving-backup'') plainOptions)))
   \<and> progressValues (fst (doWorkspaceOperation specModes sampleWorker calm
                (inMode ''w4'' ''archiving-backup'') plainOptions)) = [0, 0, 100, 100]"
proof -
  let ?ws = "inMode ''w4'' ''archiving-backup''"
  have b1: "sorted (reports (fst (doBackupWorkspace calm)))"
    by code_simp
  have b2: "\<forall>p\<in>set (reports (fst (doBackupWorkspace calm))). 0 \<le> p \<and> p \<le> 100"
    by (simp add: calm_def)
  have m: "orElse (mode ?ws) ''active'' \<in>
             {''archiving-pending-backup'', ''archiving-backup'', ''migration-pending-backup'',
              ''migration-backup''}"
    by (simp add: inMode_def)
  have v: "progressValues (fst (doWorkspaceOperation specModes sampleWorker calm ?ws plainOptions))
             = [0, 0, 100, 100]"
    by code_simp
  from progress_monotone_for_monotone_reports[of ?ws calm specModes sampleWorker plainOptions]
    m b1 b2
  have "sorted (progressValues (fst (doWorkspaceOperation specModes sampleWorker calm ?ws
                  plainOptions)))"
    by blast
  with v show ?thesis
    by (simp add: inMode_def calm_def)
qed
subsection \<open>The concurrency gate\<close>

lemma exec_finally_unfold:
  "exec_finally w =
     (w\<lparr>runningTasks := runningTasks w - 1, resolveBusy := False\<rparr>, resolveBusy w)"
  by (cases w) (simp add: exec_finally_def Let_def)

lemma step_JobSettles:
  "i < length (inflight s) \<Longrightarrow>
     step core opt (JobSettles i e) s =
       Some (s\<lparr>worker := (worker s)\<lparr>runningTasks := runningTasks (worker s) - 1,
                                     resolveBusy := False\<rparr>,
               position := (if resolveBusy (worker s) \<and> position s = Blocked then Polling
                            else position s),
               inflight := take i (inflight s) @ drop (Suc i) (inflight s),
               performed := performed s @ fst (dispatched core (worker s) e (inflight s ! i) opt)\<rparr>)"
  by (simp add: exec_finally_unfold split: prod.splits)

lemma step_JobSettles_None:
  "\<not> i < length (inflight s) \<Longrightarrow> step core opt (JobSettles i e) s = None"
  by simp

lemma gateInvariant_started: "0 \<le> maxTasks \<Longrightarrow> gateInvariant (started maxTasks url)"
  by (simp add: gateInvariant_def started_def)

lemma limit_started: "limit (worker (started maxTasks url)) = maxTasks"
  by (simp add: started_def)

lemma step_limit: "step core opt ev s = Some s' \<Longrightarrow> limit (worker s') = limit (worker s)"
proof (cases ev)
  case (IsCanceled c)
  assume "step core opt ev s = Some s'"
  then show ?thesis
    by (auto simp: IsCanceled waitForAvailableThread_def split: if_splits)
next
  case (GetPendingWorkspace r)
  assume "step core opt ev s = Some s'"
  then show ?thesis
    by (auto simp: GetPendingWorkspace exec_enter_def split: if_splits prod.splits option.splits)
next
  case SleepOver
  assume "step core opt ev s = Some s'"
  then show ?thesis
    by (auto simp: SleepOver split: if_splits)
next
  case (JobSettles i e)
  assume st: "step core opt ev s = Some s'"
  then have "i < length (inflight s)"
    by (auto simp: JobSettles split: if_splits)
  with st show ?thesis
    by (auto simp: JobSettles step_JobSettles simp del: step.simps)
qed

lemma step_gateInvariant:
  assumes "gateInvariant s" and "step core opt ev s = Some s'"
  shows "gateInvariant s'"
proof (cases ev)
  case (IsCanceled c)
  with assms show ?thesis
    by (auto simp: gateInvariant_def waitForAvailableThread_def hasAvailableThread_def
        split: if_splits)
next
  case (GetPendingWorkspace r)
  with assms show ?thesis
    by (auto simp: gateInvariant_def exec_enter_def
        split: if_splits prod.splits option.splits)
next
  case SleepOver
  with assms show ?thesis
    by (auto simp: gateInvariant_def split: if_splits)
next
  case (JobSettles i e)
  with assms(2) have i: "i < length (inflight s)"
    by (auto split: if_splits)
  then have "min (length (inflight s)) i = i"
    by simp
  with assms i show ?thesis
    by (auto simp: JobSettles step_JobSettles gateInvariant_def simp del: step.simps)
qed

lemma run_gateInvariant:
  "gateInvariant s \<Longrightarrow> run core opt evs s = Some t \<Longrightarrow> gateInvariant t"
proof (induction evs arbitrary: s)
  case Nil
  then show ?case by simp
next
  case (Cons ev evs)
  from Cons.prems(2) obtain s' where st: "step core opt ev s = Some s'"
    and rest: "run core opt evs s' = Some t"
    by (auto split: option.splits)
  from Cons.prems(1) st have "gateInvariant s'"
    by (rule step_gateInvariant)
  then show ?case
    using rest by (rule Cons.IH)
qed

lemma run_limit: "run core opt evs s = Some t \<Longrightarrow> limit (worker t) = limit (worker s)"
proof (induction evs arbitrary: s)
  case Nil
  then show ?case by simp
next
  case (Cons ev evs)
  from Cons.prems obtain s' where st: "step core opt ev s = Some s'"
    and rest: "run core opt evs s' = Some t"
    by (auto split: option.splits)
  show ?case
    using Cons.IH[OF rest] step_limit[OF st] by simp
qed

text \<open>
  Claim C3. For a worker with a limit that is not negative, at every point of every
  execution \<open>0 \<le> runningTasks \<le> limit\<close>. A dispatched job increments the counter when
  \<open>exec\<close> starts it and decrements it when its operation settles, whatever the
  collaborators answered and so also when the handler throws; after that the counter is
  still not negative and \<open>resolveBusy\<close> is \<open>null\<close>.
\<close>

theorem runningTasks_within_limit:
  assumes "0 \<le> maxTasks"
    and "run core opt evs (started maxTasks url) = Some s"
  shows "0 \<le> runningTasks (worker s) \<and> runningTasks (worker s) \<le> maxTasks
       \<and> (\<forall>ws s'. step core opt (GetPendingWorkspace (Returns (Some ws))) s = Some s' \<longrightarrow>
             runningTasks (worker s') = runningTasks (worker s) + 1
             \<and> inflight s' = inflight s @ [ws])
       \<and> (\<forall>i e s'. step core opt (JobSettles i e) s = Some s' \<longrightarrow>
             runningTasks (worker s') = runningTasks (worker s) - 1
             \<and> 0 \<le> runningTasks (worker s')
             \<and> \<not> resolveBusy (worker s'))"
proof -
  have inv: "gateInvariant s"
    using gateInvariant_started[OF assms(1)] assms(2) by (rule run_gateInvariant)
  have lim: "limit (worker s) = maxTasks"
    using run_limit[OF assms(2)] by (simp add: limit_started)
  have bounds: "0 \<le> runningTasks (worker s) \<and> runningTasks (worker s) \<le> maxTasks"
    using inv lim by (simp add: gateInvariant_def)
  have enter: "runningTasks (worker s') = runningTasks (worker s) + 1
               \<and> inflight s' = inflight s @ [ws]"
    if "step core opt (GetPendingWorkspace (Returns (Some ws))) s = Some s'" for ws s'
    using that by (auto simp: getPendingGuarded_def exec_enter_def split: if_splits)
  have leave: "runningTasks (worker s') = runningTasks (worker s) - 1
               \<and> 0 \<le> runningTasks (worker s') \<and> \<not> resolveBusy (worker s')"
    if st: "step core opt (JobSettles i e) s = Some s'" for i e s'
  proof -
    from st have i: "i < length (inflight s)"
      by (auto split: if_splits)
    from step_gateInvariant[OF inv st] have "0 \<le> runningTasks (worker s')"
      by (simp add: gateInvariant_def)
    then show ?thesis
      using st i by (auto simp: step_JobSettles simp del: step.simps)
  qed
  from bounds enter leave show ?thesis
    by blast
qed

theorem runningTasks_within_limit_witness:
  "(0::int) \<le> 1
   \<and> run specModes plainOptions saturated (started 1 None) \<noteq> None
   \<and> position (the (run specModes plainOptions saturated (started 1 None))) = Blocked
   \<and> runningTasks (worker (the (run specModes plainOptions saturated (started 1 None)))) = 1
   \<and> snd (doWorkspaceOperation specModes sampleWorker diskFull
             (inMode ''w4'' ''archiving-backup'') plainOptions) = Throws ''disk full''
   \<and> step specModes plainOptions (JobSettles 0 diskFull)
        (the (run specModes plainOptions saturated (started 1 None))) \<noteq> None
   \<and> runningTasks (worker (the (step specModes plainOptions (JobSettles 0 diskFull)
        (the (run specModes plainOptions saturated (started 1 None)))))) = 0
   \<and> \<not> resolveBusy (worker (the (step specModes plainOptions (JobSettles 0 diskFull)
        (the (run specModes plainOptions saturated (started 1 None))))))"
proof -
  have ne: "run specModes plainOptions saturated (started 1 None) \<noteq> None"
    by code_simp
  then obtain s where rs: "run specModes plainOptions saturated (started 1 None) = Some s"
    by blast
  have pos: "position (the (run specModes plainOptions saturated (started 1 None))) = Blocked"
    by code_simp
  have cnt: "runningTasks (worker (the (run specModes plainOptions saturated (started 1 None))))
               = 1"
    by code_simp
  have thr: "snd (doWorkspaceOperation specModes sampleWorker diskFull
                    (inMode ''w4'' ''archiving-backup'') plainOptions) = Throws ''disk full''"
    by code_simp
  have ne': "step specModes plainOptions (JobSettles 0 diskFull)
               (the (run specModes plainOptions saturated (started 1 None))) \<noteq> None"
    by code_simp
  then obtain s' where st: "step specModes plainOptions (JobSettles 0 diskFull) s = Some s'"
    using rs by auto
  have le: "(0::int) \<le> 1"
    by simp
  from runningTasks_within_limit[OF le rs] st
  have "runningTasks (worker s') = runningTasks (worker s) - 1 \<and> \<not> resolveBusy (worker s')"
    by blast
  then show ?thesis
    using ne ne' pos cnt thr rs st by simp
qed
subsection \<open>Errors and the polling loop\<close>

lemma dispatched_returns: "snd (dispatched core w e ws opt) = Returns ()"
  by (simp add: dispatched_def io_unfold split: outcome.splits)

lemma dispatched_catches:
  "snd (doWorkspaceOperation core w e ws opt) = Throws err \<Longrightarrow>
     fst (dispatched core w e ws opt) =
       fst (doWorkspaceOperation core w e ws opt) @ [AnalyticsHandleError err, CtxError ''error'']"
  by (simp add: dispatched_def io_unfold)

lemma step_Exited:
  assumes "step core opt ev s = Some s'" and "position s' = Exited"
  shows "position s = Exited \<or> ev = IsCanceled True"
proof (cases ev)
  case (IsCanceled c)
  with assms show ?thesis
    by (auto simp: waitForAvailableThread_def split: if_splits)
next
  case (GetPendingWorkspace r)
  with assms show ?thesis
    by (auto split: if_splits prod.splits option.splits)
next
  case SleepOver
  with assms show ?thesis
    by (auto split: if_splits)
next
  case (JobSettles i e)
  with assms(1) have i: "i < length (inflight s)"
    by (auto split: if_splits)
  with assms show ?thesis
    by (auto simp: JobSettles step_JobSettles simp del: step.simps split: if_splits)
qed

lemma run_Exited:
  "run core opt evs s = Some t \<Longrightarrow> position t = Exited \<Longrightarrow>
     position s = Exited \<or> IsCanceled True \<in> set evs"
proof (induction evs arbitrary: s)
  case Nil
  then show ?case by simp
next
  case (Cons ev evs)
  from Cons.prems(1) obtain s' where st: "step core opt ev s = Some s'"
    and rest: "run core opt evs s' = Some t"
    by (auto split: option.splits)
  from Cons.IH[OF rest Cons.prems(2)] show ?case
  proof
    assume "position s' = Exited"
    with st have "position s = Exited \<or> ev = IsCanceled True"
      by (rule step_Exited)
    then show ?thesis by auto
  next
    assume "IsCanceled True \<in> set evs"
    then show ?thesis by simp
  qed
qed

text \<open>
  Claim C4. No workspace-level error ends the polling loop. An error thrown by
  \<open>getPendingWorkspace\<close> is logged and the loop goes to sleep, as if no workspace were
  pending. The operation handed to \<open>exec\<close> never rejects: an error thrown by the handler
  is caught there, handed to analytics and logged; when a job settles, by an error or
  not, the loop stays where it is, or is released from the gate if it was blocked. From
  a fresh start the loop is only ever found exited after \<open>isCanceled()\<close> returned true,
  and a true answer at the head of the loop does end it.
\<close>

theorem loop_only_ends_by_cancellation:
  "(position s = Polling \<longrightarrow>
      step core opt (GetPendingWorkspace (Throws err)) s =
        Some (s\<lparr>position := Sleeping,
                performed := performed s @ [CtxError ''Error getting pending workspace:'']\<rparr>))
   \<and> snd (dispatched core w e ws opt) = Returns ()
   \<and> (snd (doWorkspaceOperation core w e ws opt) = Throws err \<longrightarrow>
        fst (dispatched core w e ws opt) =
          fst (doWorkspaceOperation core w e ws opt)
            @ [AnalyticsHandleError err, CtxError ''error''])
   \<and> (i < length (inflight s) \<longrightarrow>
        (\<exists>s'. step core opt (JobSettles i e) s = Some s'
              \<and> performed s' =
                  performed s @ fst (dispatched core (worker s) e (inflight s ! i) opt)
              \<and> (position s' = position s \<or> position s = Blocked \<and> position s' = Polling)))
   \<and> (run core opt evs (started maxTasks url) = Some t \<and> position t = Exited \<longrightarrow>
        IsCanceled True \<in> set evs)
   \<and> (position s = LoopHead \<longrightarrow>
        step core opt (IsCanceled True) s = Some (s\<lparr>position := Exited\<rparr>))"
proof (intro conjI impI)
  show "step core opt (GetPendingWorkspace (Throws err)) s =
          Some (s\<lparr>position := Sleeping,
                  performed := performed s @ [CtxError ''Error getting pending workspace:'']\<rparr>)"
    if "position s = Polling"
    using that by (simp add: getPendingGuarded_def)
  show "snd (dispatched core w e ws opt) = Returns ()"
    by (rule dispatched_returns)
  show "fst (dispatched core w e ws opt) =
          fst (doWorkspaceOperation core w e ws opt)
            @ [AnalyticsHandleError err, CtxError ''error'']"
    if "snd (doWorkspaceOperation core w e ws opt) = Throws err"
    using that by (rule dispatched_catches)
  show "\<exists>s'. step core opt (JobSettles i e) s = Some s'
              \<and> performed s' =
                  performed s @ fst (dispatched core (worker s) e (inflight s ! i) opt)
              \<and> (position s' = position s \<or> position s = Blocked \<and> position s' = Polling)"
    if "i < length (inflight s)"
    using that by (auto simp: step_JobSettles simp del: step.simps)
  show "IsCanceled True \<in> set evs"
    if "run core opt evs (started maxTasks url) = Some t \<and> position t = Exited"
    using that run_Exited[of core opt evs "started maxTasks url" t]
    by (auto simp: started_def)
  show "step core opt (IsCanceled True) s = Some (s\<lparr>position := Exited\<rparr>)"
    if "position s = LoopHead"
    using that by simp
qed

theorem loop_only_ends_by_cancellation_witness:
  "snd (doWorkspaceOperation specModes sampleWorker diskFull
          (inMode ''w4'' ''archiving-backup'') plainOptions) = Throws ''disk full''
   \<and> fst (dispatched specModes sampleWorker diskFull
            (inMode ''w4'' ''archiving-backup'') plainOptions) =
       fst (doWorkspaceOperation specModes sampleWorker diskFull
              (inMode ''w4'' ''archiving-backup'') plainOptions)
         @ [AnalyticsHandleError ''disk full'', CtxError ''error'']
   \<and> run specModes plainOptions stormy (started 2 None) \<noteq> None
   \<and> position (the (run specModes plainOptions stormy (started 2 None))) = Exited
   \<and> IsCanceled True \<in> set stormy
   \<and> position (the (run specModes plainOptions (butlast stormy) (started 2 None))) = LoopHead"
proof -
  let ?ws = "inMode ''w4'' ''archiving-backup''"
  have thr: "snd (doWorkspaceOperation specModes sampleWorker diskFull ?ws plainOptions) =
               Throws ''disk full''"
    by code_simp
  have ne: "run specModes plainOptions stormy (started 2 None) \<noteq> None"
    by code_simp
  then obtain t where rt: "run specModes plainOptions stormy (started 2 None) = Some t"
    by blast
  have ex: "position (the (run specModes plainOptions stormy (started 2 None))) = Exited"
    by code_simp
  have before:
    "position (the (run specModes plainOptions (butlast stormy) (started 2 None))) = LoopHead"
    by code_simp
  from ex rt have pt: "position t = Exited"
    by simp
  from loop_only_ends_by_cancellation[of "started 2 None" specModes plainOptions
      "''disk full''" sampleWorker diskFull ?ws 0 stormy 2 None t] thr rt pt
  have "fst (dispatched specModes sampleWorker diskFull ?ws plainOptions) =
          fst (doWorkspaceOperation specModes sampleWorker diskFull ?ws plainOptions)
            @ [AnalyticsHandleError ''disk full'', CtxError ''error'']
        \<and> IsCanceled True \<in> set stormy"
    by blast
  then show ?thesis
    using thr ne ex before by simp
qed

end
